theory Spec2Isabelle
  imports Complex_Main
begin

section \<open>archipack\_snap: the snap-point helper\<close>

text \<open>
  A shallow embedding of \<^verbatim>\<open>archipack_snap.py\<close>: the global \<^verbatim>\<open>SnapStore\<close>, the entry
  function \<^verbatim>\<open>snap_point\<close>, the helper class \<^verbatim>\<open>ArchipackSnapBase\<close> and the modal
  operator \<^verbatim>\<open>ARCHIPACK_OT_snap\<close>.

  The module lives inside a host application. The part of the host that the module reads
  and writes is an explicit state: the object registry, the scene, the tool settings, the
  view settings and the registered handlers. Python mutates these in place; here every
  function takes the state and returns the new one. An exception does not undo the
  assignments made before it, so a failing function returns the error together with the
  state at the point of the raise.
\<close>

subsection \<open>Vectors and matrices\<close>

text \<open>
  A \<^verbatim>\<open>Vector\<close> is a triple of coordinates. Coordinates are real numbers here: the module
  only copies and subtracts them. A 4x4 world matrix is its 3x3 block together with its
  translation column (the last row of a world matrix is fixed).
\<close>

type_synonym vec3 = "real \<times> real \<times> real"

fun vsub :: "vec3 \<Rightarrow> vec3 \<Rightarrow> vec3" where
  "vsub (a, b, c) (x, y, z) = (a - x, b - y, c - z)"

record matrix =
  basis :: "vec3 \<times> vec3 \<times> vec3"
  translation :: vec3

definition Matrix :: matrix where
  \<comment> \<open>\<^verbatim>\<open>Matrix()\<close>: the identity\<close>
  "Matrix = \<lparr>basis = ((1, 0, 0), (0, 1, 0), (0, 0, 1)), translation = (0, 0, 0)\<rparr>"

definition Translation :: "vec3 \<Rightarrow> matrix" where
  \<comment> \<open>\<^verbatim>\<open>Matrix().Translation(v)\<close>: the identity block with translation \<open>v\<close>\<close>
  "Translation v = Matrix\<lparr>translation := v\<rparr>"

subsection \<open>The host state\<close>

text \<open>
  An object of the registry \<^verbatim>\<open>bpy.data.objects\<close>. The helper has no parent, so its
  \<^verbatim>\<open>location\<close> is the translation of its world matrix.
\<close>

record object =
  name :: string
  select :: bool
  matrix_world :: matrix
  use_fake_user :: bool
  data_use_fake_user :: bool

definition location :: "object \<Rightarrow> vec3" where
  "location ob = translation (matrix_world ob)"

text \<open>
  The registry is the list of all objects in creation order; a reference to an object is
  its position, which never changes. The scene holds the references of the objects
  linked to it, and the active object is one of them or nothing.
\<close>

record host =
  area_type :: string
  objects :: "object list"
  scene_objects :: "nat list"
  active :: "nat option"
  use_snap :: bool
  snap_element :: string
  snap_target :: string
  pivot_point :: string
  transform_orientation :: string

record event =
  event_type :: string

datatype error =
  ValueError string
  | TypeError
  | AttributeError
  | ReferenceError
  | RuntimeError
  | HookError

subsection \<open>Hooks and the global store\<close>

text \<open>
  What a hook can read from the session object it is given: the three properties.
  Reading \<^verbatim>\<open>placeloc\<close> or \<^verbatim>\<open>delta\<close> dereferences the helper, which can fail.
\<close>

record sp =
  sp_takeloc :: vec3
  sp_placeloc :: "error + vec3"
  sp_delta :: "error + vec3"

text \<open>
  A hook is caller code. It receives the host context and may change it; it either
  returns or raises, in both cases leaving a host state behind.
\<close>

datatype hook_result = Returned host | Raised host

type_synonym callback_hook = "event \<Rightarrow> string \<Rightarrow> sp \<Rightarrow> host \<Rightarrow> hook_result"

type_synonym draw_hook = "sp \<Rightarrow> host \<Rightarrow> hook_result"

definition dumb_callback :: callback_hook where
  "dumb_callback ev state s c = Returned c"

definition dumb_draw :: draw_hook where
  "dumb_draw s c = Returned c"

record SnapStore =
  st_callback :: "callback_hook option"
  st_draw :: "draw_hook option"
  st_helper :: "nat option"
  st_takeloc :: vec3
  st_placeloc :: vec3
  st_constraint_axis :: "bool \<times> bool \<times> bool"
  st_helper_matrix :: matrix
  st_transform_orientation :: string
  st_mode :: "string option"

definition SnapStore_initial :: SnapStore where
  "SnapStore_initial =
     \<lparr>st_callback = None, st_draw = None, st_helper = None,
      st_takeloc = (0, 0, 0), st_placeloc = (0, 0, 0),
      st_constraint_axis = (True, True, False),
      st_helper_matrix = Matrix,
      st_transform_orientation = ''GLOBAL'',
      st_mode = None\<rparr>"

subsection \<open>The operator instance and the world\<close>

record snap_op =
  act :: "nat option"
  sel :: "nat list"
  op_use_snap :: bool
  op_snap_element :: "string option"
  op_snap_target :: "string option"
  op_pivot_point :: "string option"
  op_transform_orientation :: "string option"
  draw_handler :: "nat option"

definition snap_op_new :: snap_op where
  \<comment> \<open>\<^verbatim>\<open>ArchipackSnapBase.__init__\<close>\<close>
  "snap_op_new =
     \<lparr>act = None, sel = [], op_use_snap = False, op_snap_element = None,
      op_snap_target = None, op_pivot_point = None, op_transform_orientation = None,
      draw_handler = None\<rparr>"

text \<open>
  The world: the host context, the global store, and the host-side registrations the
  module makes (draw handlers by handle, modal handlers, requested translate transforms,
  redraw tags, reports). \<open>calls\<close> records every invocation of the action callback
  with the event type, the outcome and the session it saw.
\<close>

record world =
  ctx :: host
  store :: SnapStore
  draw_handlers :: "nat list"
  modal_handlers :: "snap_op list"
  translate_calls :: "((bool \<times> bool \<times> bool) \<times> string \<times> bool) list"
  redraw_tags :: nat
  reports :: "(string \<times> string) list"
  calls :: "(string \<times> string \<times> sp) list"

type_synonym 'a result = "(error \<times> world) + 'a"

definition bind_r :: "'a result \<Rightarrow> ('a \<Rightarrow> 'b result) \<Rightarrow> 'b result" where
  "bind_r m f = (case m of Inl e \<Rightarrow> Inl e | Inr x \<Rightarrow> f x)"

subsection \<open>Host operations used by the module\<close>

text \<open>
  The host calls the module makes, with the behaviour of the host they are written for:
  \<^item> a collection's \<^verbatim>\<open>find\<close> answers the index of the object of a name, or -1;
  \<^item> \<^verbatim>\<open>context.selected_objects\<close> lists the selected objects that are linked to the
    scene, so an unlinked object is never among them;
  \<^item> assigning the scene's active object looks the object up among the linked ones and
    leaves no active object when it is not linked; unlinking the active object leaves
    no active object;
  \<^item> \<^verbatim>\<open>link\<close> refuses an object that is linked already, \<^verbatim>\<open>unlink\<close> one that is
    not, and removing a draw handler refuses a handle that is not registered;
  \<^item> assigning \<^verbatim>\<open>None\<close> to an enumerated setting, registering \<^verbatim>\<open>None\<close> as a draw
    hook, or touching an object that no longer exists raises.

  The module works in object mode only, and so does the model. The host calls the draw
  hook on every redraw while it is registered; those calls happen between the functions
  modelled here, so the draw hook is stored and registered but never run by them.
\<close>

definition helper_name :: string where
  "helper_name = ''Archipack_snap_helper''"

fun find_first :: "string \<Rightarrow> object list \<Rightarrow> nat option" where
  "find_first n [] = None"
| "find_first n (ob # obs) =
     (if name ob = n then Some 0 else map_option Suc (find_first n obs))"

definition collection_find :: "object list \<Rightarrow> string \<Rightarrow> int" where
  \<comment> \<open>\<^verbatim>\<open>collection.find(name)\<close>: the index of the object of that name, or -1\<close>
  "collection_find obs n = (case find_first n obs of None \<Rightarrow> - 1 | Some i \<Rightarrow> int i)"

definition valid :: "host \<Rightarrow> nat \<Rightarrow> bool" where
  "valid c r = (r < length (objects c))"

definition scene_find :: "host \<Rightarrow> string \<Rightarrow> int" where
  \<comment> \<open>\<^verbatim>\<open>context.scene.objects.find(name)\<close>\<close>
  "scene_find c n =
     collection_find (map (\<lambda>r. objects c ! r) (filter (valid c) (scene_objects c))) n"

definition selected_objects :: "host \<Rightarrow> nat list" where
  \<comment> \<open>\<^verbatim>\<open>context.selected_objects\<close>: the selected objects of the scene\<close>
  "selected_objects c =
     filter (\<lambda>r. valid c r \<and> select (objects c ! r)) (scene_objects c)"

definition select_all_DESELECT :: "host \<Rightarrow> host" where
  \<comment> \<open>\<^verbatim>\<open>bpy.ops.object.select_all(action="DESELECT")\<close>\<close>
  "select_all_DESELECT c =
     c\<lparr>objects :=
         map (\<lambda>i. if i \<in> set (scene_objects c) then (objects c ! i)\<lparr>select := False\<rparr>
                   else objects c ! i)
             [0..<length (objects c)]\<rparr>"

definition update_object :: "nat \<Rightarrow> (object \<Rightarrow> object) \<Rightarrow> host \<Rightarrow> host" where
  "update_object r f c = c\<lparr>objects := (objects c)[r := f (objects c ! r)]\<rparr>"

definition set_active :: "nat \<Rightarrow> host \<Rightarrow> host" where
  \<comment> \<open>\<^verbatim>\<open>context.scene.objects.active = ob\<close>: the host looks the object up in the scene\<close>
  "set_active r c = c\<lparr>active := (if r \<in> set (scene_objects c) then Some r else None)\<rparr>"

definition link :: "nat \<Rightarrow> host \<Rightarrow> host option" where
  \<comment> \<open>\<^verbatim>\<open>context.scene.objects.link(ob)\<close>: refused when already linked\<close>
  "link r c =
     (if r \<in> set (scene_objects c) then None
      else Some (c\<lparr>scene_objects := scene_objects c @ [r]\<rparr>))"

definition unlink :: "nat \<Rightarrow> host \<Rightarrow> host option" where
  \<comment> \<open>\<^verbatim>\<open>context.scene.objects.unlink(ob)\<close>: refused when not linked; an unlinked
      active object stops being active\<close>
  "unlink r c =
     (if r \<notin> set (scene_objects c) then None
      else Some (c\<lparr>scene_objects := removeAll r (scene_objects c),
                   active := (if active c = Some r then None else active c)\<rparr>))"

definition object_add :: "host \<Rightarrow> host" where
  \<comment> \<open>\<^verbatim>\<open>bpy.ops.object.add(type='MESH')\<close>: a new object, linked, selected and active\<close>
  "object_add c =
     (let i = length (objects c) in
      c\<lparr>objects := objects c @
            [\<lparr>name = ''Mesh'', select = True, matrix_world = Matrix,
              use_fake_user = False, data_use_fake_user = False\<rparr>],
        scene_objects := scene_objects c @ [i],
        active := Some i\<rparr>)"

definition draw_handler_add :: "world \<Rightarrow> (nat \<times> world) result" where
  \<comment> \<open>\<^verbatim>\<open>SpaceView3D.draw_handler_add(SnapStore.draw, ...)\<close>: a fresh handle; the
      host refuses a hook that is not callable\<close>
  "draw_handler_add w =
     (case st_draw (store w) of
        None \<Rightarrow> Inl (TypeError, w)
      | Some d \<Rightarrow>
          (let h = Suc (fold max (draw_handlers w) 0) in
           Inr (h, w\<lparr>draw_handlers := draw_handlers w @ [h]\<rparr>)))"

definition draw_handler_remove :: "nat option \<Rightarrow> world \<Rightarrow> world result" where
  "draw_handler_remove h w =
     (case h of
        None \<Rightarrow> Inl (ValueError ''callback_remove(handle): NULL handle given'', w)
      | Some x \<Rightarrow>
          (if x \<in> set (draw_handlers w)
           then Inr (w\<lparr>draw_handlers := removeAll x (draw_handlers w)\<rparr>)
           else Inl (ValueError ''callback_remove(handle): NULL handle given'', w)))"

subsection \<open>The session properties\<close>

definition takeloc :: "world \<Rightarrow> vec3" where
  "takeloc w = st_takeloc (store w)"

definition placeloc :: "world \<Rightarrow> error + vec3" where
  "placeloc w =
     (case st_helper (store w) of
        Some h \<Rightarrow>
          (if valid (ctx w) h then Inr (location (objects (ctx w) ! h))
           else Inl ReferenceError)
      | None \<Rightarrow> Inr (st_placeloc (store w)))"

definition delta :: "world \<Rightarrow> error + vec3" where
  "delta w =
     (case placeloc w of Inl e \<Rightarrow> Inl e | Inr p \<Rightarrow> Inr (vsub p (takeloc w)))"

definition sp_of :: "world \<Rightarrow> sp" where
  "sp_of w = \<lparr>sp_takeloc = takeloc w, sp_placeloc = placeloc w, sp_delta = delta w\<rparr>"

subsection \<open>ArchipackSnapBase\<close>

definition set_transform_orientation :: "world \<Rightarrow> world" where
  "set_transform_orientation w =
     w\<lparr>ctx := (ctx w)\<lparr>transform_orientation := st_transform_orientation (store w)\<rparr>\<rparr>"

definition create_helper :: "world \<Rightarrow> world result" where
  "create_helper w =
     (let c = ctx w;
          helper_idx = collection_find (objects c) helper_name
      in bind_r
          (if helper_idx > - 1 then
             (let helper = nat helper_idx in
              if scene_find c helper_name < 0 then
                (case link helper c of
                   None \<Rightarrow> Inl (RuntimeError, w)
                 | Some c1 \<Rightarrow> Inr (helper, c1))
              else Inr (helper, c))
           else
             (let c1 = object_add c in
              case active c1 of
                None \<Rightarrow> Inl (AttributeError, w\<lparr>ctx := c1\<rparr>)
              | Some helper \<Rightarrow>
                  Inr (helper,
                       update_object helper
                         (\<lambda>ob. ob\<lparr>name := helper_name, use_fake_user := True,
                                 data_use_fake_user := True\<rparr>) c1)))
          (\<lambda>(helper, c2).
             let c3 = update_object helper
                        (\<lambda>ob. ob\<lparr>matrix_world := st_helper_matrix (store w)\<rparr>) c2;
                 c4 = update_object helper (\<lambda>ob. ob\<lparr>select := True\<rparr>) c3;
                 c5 = set_active helper c4
             in Inr (w\<lparr>ctx := c5, store := (store w)\<lparr>st_helper := Some helper\<rparr>\<rparr>)))"

definition destroy_helper :: "world \<Rightarrow> world result" where
  "destroy_helper w =
     (case st_helper (store w) of
        None \<Rightarrow> Inr w
      | Some h \<Rightarrow>
          (case unlink h (ctx w) of
             None \<Rightarrow> Inl (RuntimeError, w)
           | Some c1 \<Rightarrow> Inr (w\<lparr>ctx := c1, store := (store w)\<lparr>st_helper := None\<rparr>\<rparr>)))"

definition init :: "snap_op \<Rightarrow> event \<Rightarrow> world \<Rightarrow> (snap_op \<times> world) result" where
  "init self ev w =
     (let self1 = self\<lparr>sel := selected_objects (ctx w)\<rparr>;
          self2 = self1\<lparr>act := active (ctx w)\<rparr>;
          w1 = w\<lparr>ctx := select_all_DESELECT (ctx w)\<rparr>;
          self3 = self2\<lparr>op_use_snap := use_snap (ctx w1),
                        op_snap_element := Some (snap_element (ctx w1)),
                        op_snap_target := Some (snap_target (ctx w1)),
                        op_pivot_point := Some (pivot_point (ctx w1)),
                        op_transform_orientation := Some (transform_orientation (ctx w1))\<rparr>
      in bind_r (create_helper w1) (\<lambda>w2.
           bind_r (draw_handler_add (set_transform_orientation w2)) (\<lambda>(h, w3).
             Inr (self3\<lparr>draw_handler := Some h\<rparr>, w3))))"

fun select_all_of :: "nat list \<Rightarrow> world \<Rightarrow> world result" where
  \<comment> \<open>\<^verbatim>\<open>for o in self.sel: o.select = True\<close>\<close>
  "select_all_of [] w = Inr w"
| "select_all_of (r # rs) w =
     (if valid (ctx w) r
      then select_all_of rs (w\<lparr>ctx := update_object r (\<lambda>ob. ob\<lparr>select := True\<rparr>) (ctx w)\<rparr>)
      else Inl (ReferenceError, w))"

definition restore_enum ::
  "string option \<Rightarrow> (string \<Rightarrow> host \<Rightarrow> host) \<Rightarrow> world \<Rightarrow> world result" where
  \<comment> \<open>assigning a saved setting; the host refuses \<^verbatim>\<open>None\<close>\<close>
  "restore_enum v upd w =
     (case v of None \<Rightarrow> Inl (TypeError, w) | Some x \<Rightarrow> Inr (w\<lparr>ctx := upd x (ctx w)\<rparr>))"

definition exit :: "snap_op \<Rightarrow> world \<Rightarrow> world result" where
  \<comment> \<open>\<^verbatim>\<open>ArchipackSnapBase.exit\<close>\<close>
  "exit self w =
     bind_r (draw_handler_remove (draw_handler self) w) (\<lambda>w1.
     bind_r (destroy_helper w1) (\<lambda>w2.
     bind_r (Inr (w2\<lparr>ctx := (ctx w2)\<lparr>use_snap := op_use_snap self\<rparr>\<rparr>)) (\<lambda>w3.
     bind_r (restore_enum (op_snap_element self) (\<lambda>x c. c\<lparr>snap_element := x\<rparr>) w3) (\<lambda>w4.
     bind_r (restore_enum (op_snap_target self) (\<lambda>x c. c\<lparr>snap_target := x\<rparr>) w4) (\<lambda>w5.
     bind_r (restore_enum (op_pivot_point self) (\<lambda>x c. c\<lparr>pivot_point := x\<rparr>) w5) (\<lambda>w6.
     bind_r (restore_enum (op_transform_orientation self)
               (\<lambda>x c. c\<lparr>transform_orientation := x\<rparr>) w6) (\<lambda>w7.
     bind_r (select_all_of (sel self) w7) (\<lambda>w8.
       (case act self of
          None \<Rightarrow> Inr w8
        | Some a \<Rightarrow>
            (if valid (ctx w8) a then Inr (w8\<lparr>ctx := set_active a (ctx w8)\<rparr>)
             else Inl (ReferenceError, w8)))))))))))"

subsection \<open>The operator\<close>

definition call_callback :: "event \<Rightarrow> string \<Rightarrow> world \<Rightarrow> world result" where
  \<comment> \<open>\<^verbatim>\<open>SnapStore.callback(context, event, state, self)\<close>\<close>
  "call_callback ev state w =
     (case st_callback (store w) of
        None \<Rightarrow> Inl (TypeError, w)
      | Some cb \<Rightarrow>
          (let w1 = w\<lparr>calls := calls w @ [(event_type ev, state, sp_of w)]\<rparr> in
           case cb ev state (sp_of w) (ctx w) of
             Raised c1 \<Rightarrow> Inl (HookError, w1\<lparr>ctx := c1\<rparr>)
           | Returned c1 \<Rightarrow> Inr (w1\<lparr>ctx := c1\<rparr>)))"

definition modal :: "snap_op \<Rightarrow> event \<Rightarrow> world \<Rightarrow> (world \<times> string) result" where
  "modal self ev w =
     (let w0 = w\<lparr>redraw_tags := Suc (redraw_tags w)\<rparr> in
      bind_r
        (if event_type ev \<in> set [''ESC'', ''RIGHTMOUSE''] then
           call_callback ev ''CANCEL'' w0
         else
           (case st_helper (store w0) of
              None \<Rightarrow> Inl (AttributeError, w0)
            | Some h \<Rightarrow>
                (if valid (ctx w0) h then
                   call_callback ev ''SUCCESS''
                     (w0\<lparr>store := (store w0)\<lparr>st_placeloc := location (objects (ctx w0) ! h)\<rparr>\<rparr>)
                 else Inl (ReferenceError, w0))))
        (\<lambda>w1. bind_r (exit self w1) (\<lambda>w2. Inr (w2, ''FINISHED''))))"

definition invoke :: "snap_op \<Rightarrow> event \<Rightarrow> world \<Rightarrow> (snap_op \<times> world \<times> string) result" where
  "invoke self ev w =
     (if area_type (ctx w) = ''VIEW_3D'' then
        bind_r (init self ev w) (\<lambda>(self1, w1).
          let w2 = w1\<lparr>modal_handlers := modal_handlers w1 @ [self1]\<rparr>;
              w3 = w2\<lparr>translate_calls := translate_calls w2 @
                        [(st_constraint_axis (store w2),
                          st_transform_orientation (store w2), True)]\<rparr>
          in Inr (self1, w3, ''RUNNING_MODAL''))
      else
        Inr (self,
             w\<lparr>reports := reports w @
                 [(''WARNING'', ''View3D not found, cannot run operator'')]\<rparr>,
             ''FINISHED''))"

subsection \<open>The entry function\<close>

definition snap_point ::
  "vec3 option \<Rightarrow> draw_hook \<Rightarrow> callback_hook \<Rightarrow> matrix option \<Rightarrow> bool \<times> bool \<times> bool \<Rightarrow>
   string \<Rightarrow> string \<Rightarrow> event \<Rightarrow> world \<Rightarrow> world result" where
  "snap_point takeloc_arg draw callback takemat constraint_axis transform_orientation_arg
     mode ev w =
     (let w1 = w\<lparr>store := (store w)\<lparr>st_draw := Some draw\<rparr>\<rparr>;
          w2 = w1\<lparr>store := (store w1)\<lparr>st_callback := Some callback\<rparr>\<rparr>;
          w3 = w2\<lparr>store := (store w2)\<lparr>st_constraint_axis := constraint_axis\<rparr>\<rparr>
      in bind_r
          (case takemat of
             Some m \<Rightarrow>
               Inr (w3\<lparr>store := (store w3)\<lparr>st_helper_matrix := m\<rparr>\<rparr>,
                    translation m, ''LOCAL'')
           | None \<Rightarrow>
               (case takeloc_arg of
                  None \<Rightarrow>
                    Inl (ValueError
                           ''ArchipackSnap: Either takeloc or takemat must be defined'', w3)
                | Some t \<Rightarrow>
                    Inr (w3\<lparr>store := (store w3)\<lparr>st_helper_matrix := Translation t\<rparr>\<rparr>,
                         t, transform_orientation_arg)))
          (\<lambda>(w4, tl, orient).
             let w5 = w4\<lparr>store := (store w4)\<lparr>st_takeloc := tl, st_placeloc := tl,
                                              st_transform_orientation := orient,
                                              st_mode := Some mode\<rparr>\<rparr>
             in bind_r (invoke snap_op_new ev w5) (\<lambda>(self1, w6, status). Inr w6)))"

subsection \<open>Sessions as the host runs them\<close>

text \<open>
  The host's dispatch, as the module relies on it: when \<^verbatim>\<open>invoke\<close> answers
  \<^verbatim>\<open>RUNNING_MODAL\<close> the host runs its own translate transform, which changes the
  context between events (\<open>drag\<close>: it moves the helper, and the user may toggle
  snapping meanwhile), and then delivers the terminal event to \<^verbatim>\<open>modal\<close>.
\<close>

definition run_session ::
  "snap_op \<Rightarrow> event \<Rightarrow> (host \<Rightarrow> host) \<Rightarrow> event \<Rightarrow> world \<Rightarrow> (world \<times> string) result" where
  "run_session self ev0 drag ev w =
     bind_r (invoke self ev0 w) (\<lambda>(self1, w1, status).
       if status = ''RUNNING_MODAL'' then modal self1 ev (w1\<lparr>ctx := drag (ctx w1)\<rparr>)
       else Inr (w1, status))"

definition final_world :: "(world \<times> string) result \<Rightarrow> world" where
  \<comment> \<open>the world a handler leaves behind, whether it returned or raised\<close>
  "final_world r = (case r of Inl (e, w) \<Rightarrow> w | Inr (w, status) \<Rightarrow> w)"

text \<open>
  Host invariants: names are unique in the registry, the scene links existing objects,
  and the active object is linked.
\<close>

definition wf_host :: "host \<Rightarrow> bool" where
  "wf_host c =
     (distinct (map name (objects c)) \<and>
      list_all (valid c) (scene_objects c) \<and>
      (case active c of None \<Rightarrow> True | Some a \<Rightarrow> a \<in> set (scene_objects c)))"

text \<open>
  A session is running for an operator instance: the state \<^verbatim>\<open>init\<close> sets up and
  \<^verbatim>\<open>exit\<close> takes down. The helper is referenced and linked, the draw handle is
  registered, the saved settings are filled in, and the saved references still exist.
\<close>

definition running :: "snap_op \<Rightarrow> world \<Rightarrow> bool" where
  "running self w =
     ((case st_helper (store w) of
         None \<Rightarrow> False
       | Some h \<Rightarrow> valid (ctx w) h \<and> h \<in> set (scene_objects (ctx w))) \<and>
      (case draw_handler self of
         None \<Rightarrow> False
       | Some d \<Rightarrow> d \<in> set (draw_handlers w)) \<and>
      op_snap_element self \<noteq> None \<and> op_snap_target self \<noteq> None \<and>
      op_pivot_point self \<noteq> None \<and> op_transform_orientation self \<noteq> None \<and>
      list_all (valid (ctx w)) (sel self) \<and>
      (case act self of None \<Rightarrow> True | Some a \<Rightarrow> valid (ctx w) a))"

text \<open>
  A change of the host context that leaves the selection alone: the same objects are
  selected, linked and active afterwards. Everything else may change.
\<close>

definition keeps_selection :: "host \<Rightarrow> host \<Rightarrow> bool" where
  "keeps_selection c c' =
     (map select (objects c') = map select (objects c) \<and>
      scene_objects c' = scene_objects c \<and>
      active c' = active c)"

text \<open>The registry after \<open>o.select = True\<close> for every reference of a list.\<close>

definition mark :: "nat list \<Rightarrow> object list \<Rightarrow> object list" where
  "mark rs obs =
     map (\<lambda>i. if i \<in> set rs then (obs ! i)\<lparr>select := True\<rparr> else obs ! i) [0..<length obs]"

subsection \<open>Example worlds\<close>

definition cube :: object where
  "cube = \<lparr>name = ''Cube'', select = True, matrix_world = Matrix,
           use_fake_user = False, data_use_fake_user = False\<rparr>"

definition lamp :: object where
  "lamp = \<lparr>name = ''Lamp'', select = False, matrix_world = Translation (4, 1, 6),
           use_fake_user = False, data_use_fake_user = False\<rparr>"

definition old_helper :: object where
  "old_helper = \<lparr>name = ''Archipack_snap_helper'', select = True,
                 matrix_world = Translation (7, 8, 9),
                 use_fake_user = True, data_use_fake_user = True\<rparr>"

definition view3d_host :: host where
  \<comment> \<open>a 3D view with a selected, active cube and a lamp\<close>
  "view3d_host =
     \<lparr>area_type = ''VIEW_3D'', objects = [cube, lamp], scene_objects = [0, 1],
      active = Some 0, use_snap = False, snap_element = ''INCREMENT'',
      snap_target = ''CLOSEST'', pivot_point = ''MEDIAN_POINT'',
      transform_orientation = ''GLOBAL''\<rparr>"

definition world_of :: "host \<Rightarrow> world" where
  \<comment> \<open>a host context before the module has been used\<close>
  "world_of c =
     \<lparr>ctx = c, store = SnapStore_initial, draw_handlers = [], modal_handlers = [],
      translate_calls = [], redraw_tags = 0, reports = [], calls = []\<rparr>"

definition leftmouse :: event where
  "leftmouse = \<lparr>event_type = ''LEFTMOUSE''\<rparr>"

definition esc :: event where
  "esc = \<lparr>event_type = ''ESC''\<rparr>"

subsection \<open>Closed forms used in the proofs\<close>

text \<open>
  The reference of the helper after \<^verbatim>\<open>create_helper\<close> (the object of the reserved name,
  or the next free position), and the context \<^verbatim>\<open>create_helper\<close> leaves, written
  out in one expression. \<open>create_helper_closed\<close> below proves that they are what the
  function computes.
\<close>

definition helper_ref :: "host \<Rightarrow> nat" where
  "helper_ref c =
     (case find_first helper_name (objects c) of Some i \<Rightarrow> i | None \<Rightarrow> length (objects c))"

definition with_helper :: "matrix \<Rightarrow> host \<Rightarrow> host" where
  "with_helper m c =
     (case find_first helper_name (objects c) of
        Some i \<Rightarrow>
          c\<lparr>objects := (objects c)[i := (objects c ! i)\<lparr>matrix_world := m, select := True\<rparr>],
            scene_objects := (if scene_find c helper_name < 0
                              then scene_objects c @ [i] else scene_objects c),
            active := (if scene_find c helper_name < 0 \<or> i \<in> set (scene_objects c)
                       then Some i else None)\<rparr>
      | None \<Rightarrow>
          c\<lparr>objects := objects c @
               [\<lparr>name = helper_name, select = True, matrix_world = m,
                 use_fake_user = True, data_use_fake_user = True\<rparr>],
            scene_objects := scene_objects c @ [length (objects c)],
            active := Some (length (objects c))\<rparr>)"


text \<open>The data of the session that a modal step must not touch on the cancel path.\<close>

definition same_session_data :: "world \<Rightarrow> world \<Rightarrow> bool" where
  "same_session_data w w' =
     (calls w' = calls w \<and> st_placeloc (store w') = st_placeloc (store w) \<and>
      st_takeloc (store w') = st_takeloc (store w))"


text \<open>The part of the context that a session saves and restores.\<close>

definition restored_state ::
  "host \<Rightarrow> nat list \<times> nat option \<times> bool \<times> string \<times> string \<times> string \<times> string" where
  "restored_state c =
     (selected_objects c, active c, use_snap c, snap_element c, snap_target c,
      pivot_point c, transform_orientation c)"

subsection \<open>A session in progress\<close>

definition session_op :: snap_op where
  \<comment> \<open>the operator of a session started on \<open>view3d_host\<close>\<close>
  "session_op =
     \<lparr>act = Some 0, sel = [0], op_use_snap = False,
      op_snap_element = Some ''INCREMENT'', op_snap_target = Some ''CLOSEST'',
      op_pivot_point = Some ''MEDIAN_POINT'', op_transform_orientation = Some ''GLOBAL'',
      draw_handler = Some 1\<rparr>"

definition session_world :: world where
  \<comment> \<open>that session after the helper was dragged from (1, 2, 0) to (5, 2, 0) with
      vertex snapping switched on\<close>
  "session_world =
     \<lparr>ctx =
        \<lparr>area_type = ''VIEW_3D'',
         objects =
           [cube\<lparr>select := False\<rparr>, lamp,
            \<lparr>name = ''Archipack_snap_helper'', select = True,
             matrix_world = Translation (5, 2, 0),
             use_fake_user = True, data_use_fake_user = True\<rparr>],
         scene_objects = [0, 1, 2], active = Some 2, use_snap = True,
         snap_element = ''VERTEX'', snap_target = ''CLOSEST'',
         pivot_point = ''MEDIAN_POINT'', transform_orientation = ''GLOBAL''\<rparr>,
      store =
        \<lparr>st_callback = Some dumb_callback, st_draw = Some dumb_draw, st_helper = Some 2,
         st_takeloc = (1, 2, 0), st_placeloc = (1, 2, 0),
         st_constraint_axis = (True, True, False),
         st_helper_matrix = Translation (1, 2, 0),
         st_transform_orientation = ''GLOBAL'', st_mode = Some ''OBJECT''\<rparr>,
      draw_handlers = [1], modal_handlers = [session_op],
      translate_calls = [((True, True, False), ''GLOBAL'', True)],
      redraw_tags = 0, reports = [], calls = []\<rparr>"

definition stale_host :: host where
  \<comment> \<open>a scene in which the helper of an earlier session is still linked, selected and
      active\<close>
  "stale_host =
     \<lparr>area_type = ''VIEW_3D'', objects = [cube, old_helper], scene_objects = [0, 1],
      active = Some 1, use_snap = False, snap_element = ''INCREMENT'',
      snap_target = ''CLOSEST'', pivot_point = ''MEDIAN_POINT'',
      transform_orientation = ''GLOBAL''\<rparr>"


definition armed :: "host \<Rightarrow> world" where
  \<comment> \<open>a host context with the store as \<^verbatim>\<open>snap_point\<close> fills it for the point (1, 2, 0) and
      the default hooks, before the operator is invoked\<close>
  "armed c =
     \<lparr>ctx = c,
      store =
        \<lparr>st_callback = Some dumb_callback, st_draw = Some dumb_draw, st_helper = None,
         st_takeloc = (1, 2, 0), st_placeloc = (1, 2, 0),
         st_constraint_axis = (True, True, False),
         st_helper_matrix = Translation (1, 2, 0),
         st_transform_orientation = ''GLOBAL'', st_mode = Some ''OBJECT''\<rparr>,
      draw_handlers = [], modal_handlers = [], translate_calls = [],
      redraw_tags = 0, reports = [], calls = []\<rparr>"

definition drag_helper :: "host \<Rightarrow> host" where
  \<comment> \<open>what the host's transform did during a drag: the helper (object 2) was moved to
      (5, 2, 0) and vertex snapping was switched on\<close>
  "drag_helper c =
     (update_object 2 (\<lambda>ob. ob\<lparr>matrix_world := Translation (5, 2, 0)\<rparr>) c)
       \<lparr>use_snap := True, snap_element := ''VERTEX''\<rparr>"

section \<open>Properties\<close>

subsection \<open>Lookup by name\<close>

lemma find_first_Some:
  "find_first n obs = Some i \<Longrightarrow> i < length obs \<and> name (obs ! i) = n"
  by (induction obs arbitrary: i) (auto split: if_splits)

lemma find_first_None: "find_first n obs = None \<longleftrightarrow> n \<notin> name ` set obs"
  by (induction obs) auto

lemma find_first_distinct:
  "distinct (map name obs) \<Longrightarrow> j < length obs \<Longrightarrow> name (obs ! j) = n \<Longrightarrow>
   find_first n obs = Some j"
proof (induction obs arbitrary: j)
  case Nil
  then show ?case by simp
next
  case (Cons ob obs)
  show ?case
  proof (cases j)
    case 0
    with Cons.prems show ?thesis by simp
  next
    case (Suc k)
    with Cons.prems have k: "k < length obs" "name (obs ! k) = n" "distinct (map name obs)"
      by auto
    from k have "n \<in> name ` set obs" by (metis imageI nth_mem)
    with Cons.prems have "name ob \<noteq> n" by auto
    with Cons.IH[OF k(3) k(1) k(2)] Suc show ?thesis by simp
  qed
qed

lemma scene_find_neg_not_linked:
  assumes "find_first n (objects c) = Some i" and "scene_find c n < 0"
  shows "i \<notin> set (scene_objects c)"
proof
  assume i: "i \<in> set (scene_objects c)"
  from find_first_Some[OF assms(1)] have v: "valid c i" and nm: "name (objects c ! i) = n"
    by (simp_all add: valid_def)
  from i v
  have "objects c ! i \<in> set (map (\<lambda>r. objects c ! r) (filter (valid c) (scene_objects c)))"
    by auto
  with nm
  have "n \<in> name ` set (map (\<lambda>r. objects c ! r) (filter (valid c) (scene_objects c)))"
    by (metis imageI)
  then have "find_first n (map (\<lambda>r. objects c ! r) (filter (valid c) (scene_objects c))) \<noteq> None"
    by (simp only: find_first_None not_not)
  with assms(2) show False
    by (auto simp add: scene_find_def collection_find_def split: option.splits)
qed

lemma scene_find_wf:
  assumes "distinct (map name (objects c))" and "find_first n (objects c) = Some i"
  shows "(scene_find c n < 0) = (i \<notin> set (scene_objects c))"
proof
  assume "scene_find c n < 0"
  with assms(2) show "i \<notin> set (scene_objects c)"
    using scene_find_neg_not_linked by blast
next
  assume ni: "i \<notin> set (scene_objects c)"
  have "find_first n (map (\<lambda>r. objects c ! r) (filter (valid c) (scene_objects c))) = None"
  proof (rule ccontr)
    assume "find_first n (map (\<lambda>r. objects c ! r) (filter (valid c) (scene_objects c))) \<noteq> None"
    then have "n \<in> name ` set (map (\<lambda>r. objects c ! r) (filter (valid c) (scene_objects c)))"
      by (simp only: find_first_None not_not)
    then obtain r where r: "r \<in> set (scene_objects c)" "valid c r" "name (objects c ! r) = n"
      by auto
    from find_first_distinct[OF assms(1) _ r(3)] r(2) have "find_first n (objects c) = Some r"
      by (simp add: valid_def)
    with assms(2) have "r = i" by simp
    with r(1) ni show False by simp
  qed
  then show "scene_find c n < 0" by (simp add: scene_find_def collection_find_def)
qed

subsection \<open>The entry function without a location\<close>

text \<open>
  Claim C3. A call of \<^verbatim>\<open>snap_point\<close> with neither \<^verbatim>\<open>takeloc\<close> nor \<^verbatim>\<open>takemat\<close>
  raises the ValueError, whatever the other arguments are. In the world it leaves
  behind, the host context is untouched (no object was created or linked), no helper
  is referenced, no draw or modal handler was registered, no transform was requested,
  nothing was reported and the callback was not invoked: the operator was never
  started.
\<close>

theorem snap_point_neither_raises:
  "\<exists>w'. snap_point None draw callback None axis orient mode ev w =
           Inl (ValueError ''ArchipackSnap: Either takeloc or takemat must be defined'', w')
       \<and> ctx w' = ctx w
       \<and> st_helper (store w') = st_helper (store w)
       \<and> draw_handlers w' = draw_handlers w
       \<and> modal_handlers w' = modal_handlers w
       \<and> translate_calls w' = translate_calls w
       \<and> reports w' = reports w
       \<and> calls w' = calls w"
  by (simp add: snap_point_def bind_r_def)

text \<open>
  Claim C10. When \<^verbatim>\<open>snap_point\<close> raises that error, the store already holds the
  caller's \<^verbatim>\<open>draw\<close>, \<^verbatim>\<open>callback\<close> and \<^verbatim>\<open>constraint_axis\<close>, while its
  \<^verbatim>\<open>takeloc\<close>, \<^verbatim>\<open>placeloc\<close>, \<^verbatim>\<open>helper_matrix\<close> and
  \<^verbatim>\<open>transform_orientation\<close> are the old ones: the three assignments come before the
  check and are not undone.
\<close>

theorem snap_point_raise_not_atomic:
  "\<exists>w'. snap_point None draw callback None axis orient mode ev w =
           Inl (ValueError ''ArchipackSnap: Either takeloc or takemat must be defined'', w')
       \<and> st_draw (store w') = Some draw
       \<and> st_callback (store w') = Some callback
       \<and> st_constraint_axis (store w') = axis
       \<and> st_takeloc (store w') = st_takeloc (store w)
       \<and> st_placeloc (store w') = st_placeloc (store w)
       \<and> st_helper_matrix (store w') = st_helper_matrix (store w)
       \<and> st_transform_orientation (store w') = st_transform_orientation (store w)"
  by (simp add: snap_point_def bind_r_def)

subsection \<open>Invoking the operator outside a 3D view\<close>

text \<open>
  Claim C5. When the area is not a 3D view, \<^verbatim>\<open>invoke\<close> reports the warning and answers
  \<^verbatim>\<open>FINISHED\<close>. The world it returns differs from the one it got in the report
  only: the context and the store are the same (no helper was created, nothing was
  selected or changed), no handler was registered and the callback was not invoked.
\<close>

theorem invoke_without_view3d:
  "area_type (ctx w) \<noteq> ''VIEW_3D'' \<Longrightarrow>
   invoke self ev w =
     Inr (self,
          w\<lparr>reports := reports w @
              [(''WARNING'', ''View3D not found, cannot run operator'')]\<rparr>,
          ''FINISHED'')"
  by (simp add: invoke_def)

theorem invoke_without_view3d_witness:
  "area_type (ctx (world_of (view3d_host\<lparr>area_type := ''PROPERTIES''\<rparr>))) \<noteq> ''VIEW_3D'' \<and>
   invoke snap_op_new leftmouse (world_of (view3d_host\<lparr>area_type := ''PROPERTIES''\<rparr>)) =
     Inr (snap_op_new,
          (world_of (view3d_host\<lparr>area_type := ''PROPERTIES''\<rparr>))
            \<lparr>reports := [(''WARNING'', ''View3D not found, cannot run operator'')]\<rparr>,
          ''FINISHED'')"
  using invoke_without_view3d
          [of "world_of (view3d_host\<lparr>area_type := ''PROPERTIES''\<rparr>)" snap_op_new leftmouse]
  by (simp add: world_of_def)

subsection \<open>Creating the helper\<close>

lemma create_helper_closed:
  "create_helper w =
     Inr (w\<lparr>ctx := with_helper (st_helper_matrix (store w)) (ctx w),
            store := (store w)\<lparr>st_helper := Some (helper_ref (ctx w))\<rparr>\<rparr>)"
proof (cases "find_first helper_name (objects (ctx w))")
  case None
  then show ?thesis
    by (simp add: create_helper_def collection_find_def bind_r_def object_add_def
          update_object_def set_active_def Let_def with_helper_def helper_ref_def)
next
  case (Some i)
  from find_first_Some[OF Some] have i: "i < length (objects (ctx w))" by simp
  show ?thesis
  proof (cases "scene_find (ctx w) helper_name < 0")
    case True
    with scene_find_neg_not_linked[OF Some] have "i \<notin> set (scene_objects (ctx w))" by simp
    with True Some i show ?thesis
      by (simp add: create_helper_def collection_find_def bind_r_def link_def
            update_object_def set_active_def Let_def with_helper_def helper_ref_def)
  next
    case False
    with Some i show ?thesis
      by (simp add: create_helper_def collection_find_def bind_r_def link_def
            update_object_def set_active_def Let_def with_helper_def helper_ref_def)
  qed
qed

lemma with_helper_settings [simp]:
  "area_type (with_helper m c) = area_type c"
  "use_snap (with_helper m c) = use_snap c"
  "snap_element (with_helper m c) = snap_element c"
  "snap_target (with_helper m c) = snap_target c"
  "pivot_point (with_helper m c) = pivot_point c"
  "transform_orientation (with_helper m c) = transform_orientation c"
  by (simp_all add: with_helper_def split: option.splits)

lemma with_helper_valid: "valid (with_helper m c) (helper_ref c)"
  by (auto simp add: with_helper_def helper_ref_def valid_def split: option.splits
        dest: find_first_Some)

lemma with_helper_length: "length (objects c) \<le> length (objects (with_helper m c))"
  by (simp add: with_helper_def split: option.splits)

lemma with_helper_at:
  "matrix_world (objects (with_helper m c) ! helper_ref c) = m"
  "select (objects (with_helper m c) ! helper_ref c)"
  "name (objects (with_helper m c) ! helper_ref c) = helper_name"
  by (auto simp add: with_helper_def helper_ref_def split: option.splits
        dest: find_first_Some)

lemma with_helper_other:
  "r < length (objects c) \<Longrightarrow> r \<noteq> helper_ref c \<Longrightarrow>
   objects (with_helper m c) ! r = objects c ! r"
  by (auto simp add: with_helper_def helper_ref_def nth_append split: option.splits)

lemma init_closed:
  assumes "st_draw (store w) = Some d"
  shows "init self ev w =
     Inr (self\<lparr>sel := selected_objects (ctx w), act := active (ctx w),
               op_use_snap := use_snap (ctx w),
               op_snap_element := Some (snap_element (ctx w)),
               op_snap_target := Some (snap_target (ctx w)),
               op_pivot_point := Some (pivot_point (ctx w)),
               op_transform_orientation := Some (transform_orientation (ctx w)),
               draw_handler := Some (Suc (fold max (draw_handlers w) 0))\<rparr>,
          w\<lparr>ctx := (with_helper (st_helper_matrix (store w)) (select_all_DESELECT (ctx w)))
                     \<lparr>transform_orientation := st_transform_orientation (store w)\<rparr>,
            store := (store w)\<lparr>st_helper := Some (helper_ref (select_all_DESELECT (ctx w)))\<rparr>,
            draw_handlers := draw_handlers w @ [Suc (fold max (draw_handlers w) 0)]\<rparr>)"
  using assms
  by (simp add: init_def create_helper_closed bind_r_def set_transform_orientation_def
        draw_handler_add_def Let_def select_all_DESELECT_def)

subsection \<open>Leaving a session\<close>

lemma mark_length [simp]: "length (mark rs obs) = length obs"
  by (simp add: mark_def)

lemma mark_nth:
  "i < length obs \<Longrightarrow>
   mark rs obs ! i = (if i \<in> set rs then (obs ! i)\<lparr>select := True\<rparr> else obs ! i)"
  by (simp add: mark_def)

lemma mark_Nil [simp]: "mark [] obs = obs"
  by (rule nth_equalityI) (simp_all add: mark_nth)

lemma mark_Cons:
  "r < length obs \<Longrightarrow> mark rs (obs[r := (obs ! r)\<lparr>select := True\<rparr>]) = mark (r # rs) obs"
  by (rule nth_equalityI) (auto simp add: mark_nth nth_list_update)

lemma select_all_of_closed:
  "list_all (valid (ctx w)) rs \<Longrightarrow>
   select_all_of rs w = Inr (w\<lparr>ctx := (ctx w)\<lparr>objects := mark rs (objects (ctx w))\<rparr>\<rparr>)"
proof (induction rs arbitrary: w)
  case Nil
  then show ?case by simp
next
  case (Cons r rs)
  let ?w1 = "w\<lparr>ctx := update_object r (\<lambda>ob. ob\<lparr>select := True\<rparr>) (ctx w)\<rparr>"
  from Cons.prems have r: "valid (ctx w) r" and rs: "list_all (valid (ctx w)) rs"
    by simp_all
  have "list_all (valid (ctx ?w1)) rs"
    using rs by (simp add: valid_def update_object_def list_all_iff)
  from Cons.IH[OF this] r show ?case
    by (simp add: update_object_def mark_Cons valid_def)
qed

lemma select_all_of_frame:
  "same_session_data w (case select_all_of rs w of Inl (e, w') \<Rightarrow> w' | Inr w' \<Rightarrow> w')"
  by (induction rs arbitrary: w) (auto simp add: same_session_data_def)

lemma exit_closed:
  assumes "st_helper (store w) = Some h" and "h \<in> set (scene_objects (ctx w))"
    and "draw_handler self = Some d" and "d \<in> set (draw_handlers w)"
    and "op_snap_element self = Some e1" and "op_snap_target self = Some e2"
    and "op_pivot_point self = Some e3" and "op_transform_orientation self = Some e4"
    and "list_all (valid (ctx w)) (sel self)"
    and "case act self of None \<Rightarrow> True | Some a \<Rightarrow> valid (ctx w) a"
  shows "exit self w =
     Inr (w\<lparr>draw_handlers := removeAll d (draw_handlers w),
            store := (store w)\<lparr>st_helper := None\<rparr>,
            ctx := (ctx w)\<lparr>
              scene_objects := removeAll h (scene_objects (ctx w)),
              objects := mark (sel self) (objects (ctx w)),
              use_snap := op_use_snap self, snap_element := e1, snap_target := e2,
              pivot_point := e3, transform_orientation := e4,
              active :=
                (case act self of
                   None \<Rightarrow> (if active (ctx w) = Some h then None else active (ctx w))
                 | Some a \<Rightarrow> (if a \<in> set (removeAll h (scene_objects (ctx w)))
                              then Some a else None))\<rparr>\<rparr>)"
proof -
  let ?w7 = "w\<lparr>draw_handlers := removeAll d (draw_handlers w),
            store := (store w)\<lparr>st_helper := None\<rparr>,
            ctx := (ctx w)\<lparr>
              scene_objects := removeAll h (scene_objects (ctx w)),
              active := (if active (ctx w) = Some h then None else active (ctx w)),
              use_snap := op_use_snap self, snap_element := e1, snap_target := e2,
              pivot_point := e3, transform_orientation := e4\<rparr>\<rparr>"
  have v: "list_all (valid (ctx ?w7)) (sel self)"
    using assms(9) by (simp add: valid_def list_all_iff)
  show ?thesis
    using assms select_all_of_closed[OF v]
    by (cases "act self")
       (simp_all add: exit_def bind_r_def draw_handler_remove_def destroy_helper_def
          unlink_def restore_enum_def set_active_def valid_def)
qed

lemma select_all_of_frame_Inr: "select_all_of rs w = Inr w' \<Longrightarrow> same_session_data w w'"
  using select_all_of_frame[of w rs] by simp

lemma select_all_of_frame_Inl: "select_all_of rs w = Inl (e, w') \<Longrightarrow> same_session_data w w'"
  using select_all_of_frame[of w rs] by simp

lemma exit_frame:
  "same_session_data w (case exit self w of Inl (e, w') \<Rightarrow> w' | Inr w' \<Rightarrow> w')"
  by (auto simp add: exit_def bind_r_def draw_handler_remove_def destroy_helper_def
        restore_enum_def same_session_data_def
        split: option.splits sum.splits if_splits
        dest!: select_all_of_frame_Inr select_all_of_frame_Inl)

lemma select_all_of_store: "select_all_of rs w = Inr w' \<Longrightarrow> store w' = store w"
  by (induction rs arbitrary: w) (auto split: if_splits)

lemma exit_returns_no_helper: "exit self w = Inr w' \<Longrightarrow> st_helper (store w') = None"
  by (auto simp add: exit_def bind_r_def draw_handler_remove_def destroy_helper_def
        restore_enum_def
        split: option.splits sum.splits if_splits
        dest!: select_all_of_store)

lemma exit_running:
  assumes "running self w"
  shows "\<exists>w'. exit self w = Inr w' \<and> st_helper (store w') = None \<and>
               same_session_data w w'"
proof -
  from assms obtain h d e1 e2 e3 e4 where
    "st_helper (store w) = Some h" "h \<in> set (scene_objects (ctx w))"
    "draw_handler self = Some d" "d \<in> set (draw_handlers w)"
    "op_snap_element self = Some e1" "op_snap_target self = Some e2"
    "op_pivot_point self = Some e3" "op_transform_orientation self = Some e4"
    "list_all (valid (ctx w)) (sel self)"
    "case act self of None \<Rightarrow> True | Some a \<Rightarrow> valid (ctx w) a"
    by (auto simp add: running_def split: option.splits)
  from exit_closed[OF this] show ?thesis
    by (simp add: same_session_data_def)
qed

subsection \<open>The modal step\<close>

lemma sp_of_redraw [simp]: "sp_of (w\<lparr>redraw_tags := n\<rparr>) = sp_of w"
  by (simp add: sp_of_def takeloc_def placeloc_def delta_def split: option.splits)

lemma running_redraw_calls [simp]:
  "running self (w\<lparr>calls := cs\<rparr>) = running self w"
  "running self (w\<lparr>redraw_tags := n\<rparr>) = running self w"
  by (simp_all add: running_def cong: option.case_cong)

lemma modal_returns:
  assumes "running self w"
    and "st_callback (store w) = Some cb"
    and "st_helper (store w) = Some h"
    and "state = (if event_type ev \<in> {''ESC'', ''RIGHTMOUSE''} then ''CANCEL'' else ''SUCCESS'')"
    and "w_pre = (if event_type ev \<in> {''ESC'', ''RIGHTMOUSE''}
                  then w\<lparr>redraw_tags := Suc (redraw_tags w)\<rparr>
                  else w\<lparr>redraw_tags := Suc (redraw_tags w),
                         store := (store w)\<lparr>st_placeloc := location (objects (ctx w) ! h)\<rparr>\<rparr>)"
    and "cb ev state (sp_of w_pre) (ctx w) = Returned cr"
    and "running self (w_pre\<lparr>ctx := cr\<rparr>)"
  shows "\<exists>w'. modal self ev w = Inr (w', ''FINISHED'')
            \<and> exit self (w_pre\<lparr>calls := calls w @ [(event_type ev, state, sp_of w_pre)],
                                ctx := cr\<rparr>) = Inr w'
            \<and> calls w' = calls w @ [(event_type ev, state, sp_of w_pre)]
            \<and> st_placeloc (store w') = st_placeloc (store w_pre)
            \<and> st_takeloc (store w') = st_takeloc (store w)
            \<and> st_helper (store w') = None"
proof -
  let ?w1 = "w_pre\<lparr>calls := calls w @ [(event_type ev, state, sp_of w_pre)], ctx := cr\<rparr>"
  have "running self ?w1" using assms(7) by (simp add: running_def cong: option.case_cong)
  from exit_running[OF this] obtain w' where
    w': "exit self ?w1 = Inr w'" "st_helper (store w') = None" "same_session_data ?w1 w'"
    by blast
  have hv: "valid (ctx w) h" using assms(1,3) by (simp add: running_def)
  have cc: "call_callback ev state w_pre = Inr ?w1"
    using assms(2,4,5,6) by (auto simp add: call_callback_def)
  have "modal self ev w = Inr (w', ''FINISHED'')"
  proof (cases "event_type ev \<in> {''ESC'', ''RIGHTMOUSE''}")
    case True
    with cc w'(1) assms(4,5) show ?thesis by (simp add: modal_def bind_r_def)
  next
    case False
    with cc w'(1) assms(3,4,5) hv show ?thesis by (simp add: modal_def bind_r_def)
  qed
  with w' assms(5) show ?thesis by (auto simp add: same_session_data_def)
qed

lemma session_running: "running session_op session_world"
  by (simp add: running_def session_op_def session_world_def valid_def)

lemma session_sp:
  "sp_of session_world =
     \<lparr>sp_takeloc = (1, 2, 0), sp_placeloc = Inr (5, 2, 0), sp_delta = Inr (4, 0, 0)\<rparr>"
  by (simp add: sp_of_def takeloc_def placeloc_def delta_def session_world_def valid_def
        location_def Translation_def)

lemma session_confirmed_sp:
  "sp_of (session_world\<lparr>redraw_tags := Suc (redraw_tags session_world),
            store := (store session_world)
              \<lparr>st_placeloc := location (objects (ctx session_world) ! 2)\<rparr>\<rparr>) =
     \<lparr>sp_takeloc = (1, 2, 0), sp_placeloc = Inr (5, 2, 0), sp_delta = Inr (4, 0, 0)\<rparr>"
  by (simp add: sp_of_def takeloc_def placeloc_def delta_def session_world_def valid_def
        location_def Translation_def)

text \<open>
  Claim C2. A modal step on a running session whose callback returns. On \<^verbatim>\<open>ESC\<close> or
  \<^verbatim>\<open>RIGHTMOUSE\<close> the callback is invoked with \<^verbatim>\<open>CANCEL\<close> on the session as it is;
  on any other event the helper's location is first stored as \<^verbatim>\<open>placeloc\<close>
  (\<open>w_pre\<close> is the world the callback sees) and the callback is invoked with
  \<^verbatim>\<open>SUCCESS\<close>. In both cases \<^verbatim>\<open>exit\<close> then runs on the world the callback left and
  returns, and the step answers \<^verbatim>\<open>FINISHED\<close>. The callback was invoked once, and the
  stored \<^verbatim>\<open>placeloc\<close> is the one the callback saw.
\<close>

theorem modal_terminal_event:
  assumes "running self w"
    and "st_callback (store w) = Some cb"
    and "st_helper (store w) = Some h"
    and "state = (if event_type ev \<in> {''ESC'', ''RIGHTMOUSE''} then ''CANCEL'' else ''SUCCESS'')"
    and "w_pre = (if event_type ev \<in> {''ESC'', ''RIGHTMOUSE''}
                  then w\<lparr>redraw_tags := Suc (redraw_tags w)\<rparr>
                  else w\<lparr>redraw_tags := Suc (redraw_tags w),
                         store := (store w)\<lparr>st_placeloc := location (objects (ctx w) ! h)\<rparr>\<rparr>)"
    and "cb ev state (sp_of w_pre) (ctx w) = Returned cr"
    and "running self (w_pre\<lparr>ctx := cr\<rparr>)"
  shows "\<exists>w'. modal self ev w = Inr (w', ''FINISHED'')
            \<and> exit self (w_pre\<lparr>calls := calls w @ [(event_type ev, state, sp_of w_pre)],
                                ctx := cr\<rparr>) = Inr w'
            \<and> calls w' = calls w @ [(event_type ev, state, sp_of w_pre)]
            \<and> st_placeloc (store w') = st_placeloc (store w_pre)
            \<and> st_takeloc (store w') = st_takeloc (store w)
            \<and> st_helper (store w') = None"
  using assms by (rule modal_returns)

theorem modal_terminal_event_witness:
  "running session_op session_world \<and>
   (\<exists>w'. modal session_op leftmouse session_world = Inr (w', ''FINISHED'')
        \<and> calls w' =
            [(''LEFTMOUSE'', ''SUCCESS'',
              \<lparr>sp_takeloc = (1, 2, 0), sp_placeloc = Inr (5, 2, 0), sp_delta = Inr (4, 0, 0)\<rparr>)]
        \<and> st_placeloc (store w') = (5, 2, 0)
        \<and> st_helper (store w') = None)"
proof -
  let ?wp = "session_world\<lparr>redraw_tags := Suc (redraw_tags session_world),
            store := (store session_world)
              \<lparr>st_placeloc := location (objects (ctx session_world) ! 2)\<rparr>\<rparr>"
  have cb: "st_callback (store session_world) = Some dumb_callback"
    and h: "st_helper (store session_world) = Some 2"
    and cs: "calls session_world = []"
    by (simp_all add: session_world_def)
  have st: "''SUCCESS'' =
      (if event_type leftmouse \<in> {''ESC'', ''RIGHTMOUSE''} then ''CANCEL'' else ''SUCCESS'')"
    and et: "event_type leftmouse = ''LEFTMOUSE''"
    by (simp_all add: leftmouse_def)
  have wp: "?wp = (if event_type leftmouse \<in> {''ESC'', ''RIGHTMOUSE''}
                  then session_world\<lparr>redraw_tags := Suc (redraw_tags session_world)\<rparr>
                  else ?wp)"
    by (simp add: leftmouse_def)
  have ret: "dumb_callback leftmouse ''SUCCESS'' (sp_of ?wp) (ctx session_world) =
               Returned (ctx session_world)"
    by (simp add: dumb_callback_def)
  have r2: "running session_op (?wp\<lparr>ctx := ctx session_world\<rparr>)"
    by (simp add: running_def session_op_def session_world_def valid_def)
  have pl: "st_placeloc (store ?wp) = (5, 2, 0)"
    by (simp add: session_world_def location_def Translation_def)
  from modal_terminal_event [OF session_running cb h st wp ret r2]
  obtain w' where "modal session_op leftmouse session_world = Inr (w', ''FINISHED'')"
    "calls w' = calls session_world @ [(event_type leftmouse, ''SUCCESS'', sp_of ?wp)]"
    "st_placeloc (store w') = st_placeloc (store ?wp)"
    "st_helper (store w') = None"
    by blast
  then have "modal session_op leftmouse session_world = Inr (w', ''FINISHED'')
        \<and> calls w' =
            [(''LEFTMOUSE'', ''SUCCESS'',
              \<lparr>sp_takeloc = (1, 2, 0), sp_placeloc = Inr (5, 2, 0), sp_delta = Inr (4, 0, 0)\<rparr>)]
        \<and> st_placeloc (store w') = (5, 2, 0)
        \<and> st_helper (store w') = None"
    by (simp only: cs et pl session_confirmed_sp append_Nil simp_thms)
  with session_running show ?thesis by blast
qed

text \<open>
  Claim C6. The cancel path. When the terminal event is \<^verbatim>\<open>ESC\<close> or \<^verbatim>\<open>RIGHTMOUSE\<close>
  and a callback is installed, the world the modal step leaves behind (whether it returned
  or something raised on the way) has exactly one more callback invocation than before,
  with outcome \<^verbatim>\<open>CANCEL\<close>, and the stored \<^verbatim>\<open>placeloc\<close> is the one from before the
  step: the helper's location is not copied into it. Once the step has returned, the
  \<^verbatim>\<open>placeloc\<close> property reads that stored value.
\<close>

theorem modal_cancel_path:
  assumes "event_type ev \<in> {''ESC'', ''RIGHTMOUSE''}"
    and "st_callback (store w) = Some cb"
  shows "calls (final_world (modal self ev w)) = calls w @ [(event_type ev, ''CANCEL'', sp_of w)]
       \<and> st_placeloc (store (final_world (modal self ev w))) = st_placeloc (store w)
       \<and> (\<forall>w' status. modal self ev w = Inr (w', status) \<longrightarrow>
             placeloc w' = Inr (st_placeloc (store w)))"
proof -
  let ?w0 = "w\<lparr>redraw_tags := Suc (redraw_tags w)\<rparr>"
  let ?entry = "(event_type ev, ''CANCEL'', sp_of w)"
  show ?thesis
  proof (cases "cb ev ''CANCEL'' (sp_of w) (ctx w)")
    case (Raised cr)
    with assms have "modal self ev w = Inl (HookError, ?w0\<lparr>calls := calls w @ [?entry], ctx := cr\<rparr>)"
      by (simp add: modal_def bind_r_def call_callback_def)
    then show ?thesis by (simp add: final_world_def)
  next
    case (Returned cr)
    let ?w1 = "?w0\<lparr>calls := calls w @ [?entry], ctx := cr\<rparr>"
    from Returned assms
    have m: "modal self ev w = bind_r (exit self ?w1) (\<lambda>w2. Inr (w2, ''FINISHED''))"
      by (simp add: modal_def bind_r_def call_callback_def)
    show ?thesis
    proof (cases "exit self ?w1")
      case (Inl ew)
      obtain e w' where ew: "ew = (e, w')" by (cases ew)
      from exit_frame[of ?w1 self] Inl ew have "same_session_data ?w1 w'" by simp
      with m Inl ew show ?thesis
        by (simp add: bind_r_def final_world_def same_session_data_def)
    next
      case (Inr w')
      from exit_frame[of ?w1 self] Inr have "same_session_data ?w1 w'" by simp
      moreover from exit_returns_no_helper[OF Inr] have "st_helper (store w') = None" .
      ultimately show ?thesis using m Inr
        by (simp add: bind_r_def final_world_def same_session_data_def placeloc_def)
    qed
  qed
qed

theorem modal_cancel_path_witness:
  "event_type esc \<in> {''ESC'', ''RIGHTMOUSE''} \<and>
   st_callback (store session_world) = Some dumb_callback \<and>
   placeloc session_world = Inr (5, 2, 0) \<and>
   calls (final_world (modal session_op esc session_world)) =
     [(''ESC'', ''CANCEL'',
       \<lparr>sp_takeloc = (1, 2, 0), sp_placeloc = Inr (5, 2, 0), sp_delta = Inr (4, 0, 0)\<rparr>)] \<and>
   st_placeloc (store (final_world (modal session_op esc session_world))) = (1, 2, 0)"
proof -
  have ev: "event_type esc \<in> {''ESC'', ''RIGHTMOUSE''}" and et: "event_type esc = ''ESC''"
    by (simp_all add: esc_def)
  have cb: "st_callback (store session_world) = Some dumb_callback"
    and cs: "calls session_world = []"
    and pl: "st_placeloc (store session_world) = (1, 2, 0)"
    by (simp_all add: session_world_def)
  have live: "placeloc session_world = Inr (5, 2, 0)"
    using session_sp by (simp add: sp_of_def)
  from modal_cancel_path [OF ev cb, of session_op]
  have "calls (final_world (modal session_op esc session_world)) =
          [(''ESC'', ''CANCEL'',
            \<lparr>sp_takeloc = (1, 2, 0), sp_placeloc = Inr (5, 2, 0), sp_delta = Inr (4, 0, 0)\<rparr>)]"
    and "st_placeloc (store (final_world (modal session_op esc session_world))) = (1, 2, 0)"
    by (simp_all only: cs et pl session_sp append_Nil)
  with ev cb live show ?thesis by blast
qed

subsection \<open>Beginning a session\<close>

lemma find_first_names:
  "map name obs = map name obs' \<Longrightarrow> find_first n obs = find_first n obs'"
proof (induction obs arbitrary: obs')
  case Nil
  then show ?case by simp
next
  case (Cons ob obs)
  then obtain ob' obs'' where "obs' = ob' # obs''" by (cases obs') auto
  with Cons show ?case by auto
qed

lemma deselect_length [simp]:
  "length (objects (select_all_DESELECT c)) = length (objects c)"
  by (simp add: select_all_DESELECT_def)

lemma deselect_fields [simp]:
  "scene_objects (select_all_DESELECT c) = scene_objects c"
  "active (select_all_DESELECT c) = active c"
  "area_type (select_all_DESELECT c) = area_type c"
  "use_snap (select_all_DESELECT c) = use_snap c"
  "snap_element (select_all_DESELECT c) = snap_element c"
  "snap_target (select_all_DESELECT c) = snap_target c"
  "pivot_point (select_all_DESELECT c) = pivot_point c"
  "transform_orientation (select_all_DESELECT c) = transform_orientation c"
  by (simp_all add: select_all_DESELECT_def)

lemma deselect_nth:
  "r < length (objects c) \<Longrightarrow>
   objects (select_all_DESELECT c) ! r =
     (if r \<in> set (scene_objects c) then (objects c ! r)\<lparr>select := False\<rparr> else objects c ! r)"
  by (simp add: select_all_DESELECT_def)

lemma deselect_names [simp]:
  "map name (objects (select_all_DESELECT c)) = map name (objects c)"
  by (rule nth_equalityI) (simp_all add: deselect_nth)

lemma deselect_valid [simp]: "valid (select_all_DESELECT c) = valid c"
  by (simp add: valid_def fun_eq_iff)

lemma deselect_find_first [simp]:
  "find_first n (objects (select_all_DESELECT c)) = find_first n (objects c)"
  by (rule find_first_names) simp

lemma deselect_helper_ref [simp]: "helper_ref (select_all_DESELECT c) = helper_ref c"
  by (simp add: helper_ref_def cong: option.case_cong)

lemma deselect_wf: "wf_host c \<Longrightarrow> wf_host (select_all_DESELECT c)"
  by (simp add: wf_host_def cong: option.case_cong)

lemma helper_ref_not_linked_new:
  "wf_host c \<Longrightarrow> find_first helper_name (objects c) = None \<Longrightarrow>
   length (objects c) \<notin> set (scene_objects c)"
  by (auto simp add: wf_host_def list_all_iff valid_def)

lemma with_helper_scene:
  assumes "wf_host c"
  shows "scene_objects (with_helper m c) =
           (if helper_ref c \<in> set (scene_objects c) then scene_objects c
            else scene_objects c @ [helper_ref c])"
    and "active (with_helper m c) = Some (helper_ref c)"
proof -
  show "scene_objects (with_helper m c) =
           (if helper_ref c \<in> set (scene_objects c) then scene_objects c
            else scene_objects c @ [helper_ref c])"
  proof (cases "find_first helper_name (objects c)")
    case None
    with helper_ref_not_linked_new[OF assms] show ?thesis
      by (simp add: with_helper_def helper_ref_def)
  next
    case (Some i)
    from assms have "distinct (map name (objects c))" by (simp add: wf_host_def)
    from scene_find_wf[OF this Some] Some show ?thesis
      by (simp add: with_helper_def helper_ref_def)
  qed
  show "active (with_helper m c) = Some (helper_ref c)"
  proof (cases "find_first helper_name (objects c)")
    case None
    then show ?thesis by (simp add: with_helper_def helper_ref_def)
  next
    case (Some i)
    from assms have "distinct (map name (objects c))" by (simp add: wf_host_def)
    from scene_find_wf[OF this Some] Some show ?thesis
      by (simp add: with_helper_def helper_ref_def)
  qed
qed

lemma with_helper_linked: "wf_host c \<Longrightarrow> helper_ref c \<in> set (scene_objects (with_helper m c))"
  by (simp add: with_helper_scene)

lemma invoke_closed:
  assumes "area_type (ctx w) = ''VIEW_3D''" and "st_draw (store w) = Some d"
  shows "invoke self ev w =
     Inr (self\<lparr>sel := selected_objects (ctx w), act := active (ctx w),
               op_use_snap := use_snap (ctx w),
               op_snap_element := Some (snap_element (ctx w)),
               op_snap_target := Some (snap_target (ctx w)),
               op_pivot_point := Some (pivot_point (ctx w)),
               op_transform_orientation := Some (transform_orientation (ctx w)),
               draw_handler := Some (Suc (fold max (draw_handlers w) 0))\<rparr>,
          w\<lparr>ctx := (with_helper (st_helper_matrix (store w)) (select_all_DESELECT (ctx w)))
                     \<lparr>transform_orientation := st_transform_orientation (store w)\<rparr>,
            store := (store w)\<lparr>st_helper := Some (helper_ref (ctx w))\<rparr>,
            draw_handlers := draw_handlers w @ [Suc (fold max (draw_handlers w) 0)],
            modal_handlers := modal_handlers w @
              [self\<lparr>sel := selected_objects (ctx w), act := active (ctx w),
                    op_use_snap := use_snap (ctx w),
                    op_snap_element := Some (snap_element (ctx w)),
                    op_snap_target := Some (snap_target (ctx w)),
                    op_pivot_point := Some (pivot_point (ctx w)),
                    op_transform_orientation := Some (transform_orientation (ctx w)),
                    draw_handler := Some (Suc (fold max (draw_handlers w) 0))\<rparr>],
            translate_calls := translate_calls w @
              [(st_constraint_axis (store w), st_transform_orientation (store w), True)]\<rparr>,
          ''RUNNING_MODAL'')"
  using assms by (simp add: invoke_def init_closed[OF assms(2)] bind_r_def)

subsection \<open>Changes that keep the selection\<close>

lemma keeps_selection_length:
  "keeps_selection c c' \<Longrightarrow> length (objects c') = length (objects c)"
  by (metis keeps_selection_def length_map)

lemma keeps_selection_select:
  "keeps_selection c c' \<Longrightarrow> r < length (objects c) \<Longrightarrow>
   select (objects c' ! r) = select (objects c ! r)"
  by (metis keeps_selection_def length_map nth_map)

lemma keeps_selection_valid: "keeps_selection c c' \<Longrightarrow> valid c' = valid c"
  by (simp add: valid_def fun_eq_iff keeps_selection_length)

lemma running_keeps:
  assumes "running self w" and "keeps_selection (ctx w) c'"
  shows "running self (w\<lparr>ctx := c'\<rparr>)"
proof -
  have "valid c' = valid (ctx w)" by (rule keeps_selection_valid[OF assms(2)])
  moreover from assms(2) have "scene_objects c' = scene_objects (ctx w)"
    by (simp add: keeps_selection_def)
  ultimately show ?thesis using assms(1)
    by (simp add: running_def cong: option.case_cong)
qed

lemma running_placeloc [simp]:
  "running self (w\<lparr>store := (store w)\<lparr>st_placeloc := p\<rparr>\<rparr>) = running self w"
  by (simp add: running_def cong: option.case_cong)

lemma restore_selection:
  assumes wf: "wf_host c" and hS: "h \<notin> set (selected_objects c)"
    and len: "length (objects c) \<le> length obs"
    and off: "\<forall>r \<in> set (scene_objects c). r \<noteq> h \<longrightarrow> \<not> select (obs ! r)"
  shows "selected_objects
           (c'\<lparr>scene_objects := removeAll h (scene_objects c),
               objects := mark (selected_objects c) obs\<rparr>) = selected_objects c"
proof -
  have "filter (\<lambda>r. h \<noteq> r \<and> r < length obs \<and> select (mark (selected_objects c) obs ! r))
          (scene_objects c) =
        filter (\<lambda>r. r < length (objects c) \<and> select (objects c ! r)) (scene_objects c)"
  proof (rule filter_cong[OF refl])
    fix r assume r: "r \<in> set (scene_objects c)"
    with wf have rv: "r < length (objects c)" by (simp add: wf_host_def list_all_iff valid_def)
    with len have ro: "r < length obs" by simp
    have S: "r \<in> set (selected_objects c) \<longleftrightarrow> select (objects c ! r)"
      using r rv by (simp add: selected_objects_def valid_def)
    show "(h \<noteq> r \<and> r < length obs \<and> select (mark (selected_objects c) obs ! r)) =
          (r < length (objects c) \<and> select (objects c ! r))"
    proof (cases "r = h")
      case True
      with hS S rv show ?thesis by auto
    next
      case False
      with off r have "\<not> select (obs ! r)" by simp
      with False rv ro S show ?thesis by (auto simp add: mark_nth)
    qed
  qed
  then show ?thesis
    by (simp add: selected_objects_def valid_def removeAll_filter_not_eq)
qed

lemma begun_unselected:
  assumes "r \<in> set (scene_objects c)" and "r < length (objects c)" and "r \<noteq> helper_ref c"
  shows "\<not> select (objects (with_helper m (select_all_DESELECT c)) ! r)"
proof -
  have "objects (with_helper m (select_all_DESELECT c)) ! r = objects (select_all_DESELECT c) ! r"
    using assms(2,3) with_helper_other[of r "select_all_DESELECT c" m] by simp
  with assms(1,2) show ?thesis by (simp add: deselect_nth)
qed

lemma valid_orientation [simp]: "valid (c\<lparr>transform_orientation := t\<rparr>) = valid c"
  by (simp add: valid_def fun_eq_iff)

lemma invoke_running:
  assumes wf: "wf_host (ctx w)" and "area_type (ctx w) = ''VIEW_3D''"
    and "st_draw (store w) = Some d"
    and "invoke self ev w = Inr (self1, w1, status)"
  shows "running self1 w1"
proof -
  let ?c = "ctx w"
  let ?cD = "select_all_DESELECT ?c"
  let ?m = "st_helper_matrix (store w)"
  from wf have wfD: "wf_host ?cD" by (rule deselect_wf)
  have hv: "valid (with_helper ?m ?cD) (helper_ref ?c)"
    using with_helper_valid[of ?m ?cD] by simp
  have hl: "helper_ref ?c \<in> set (scene_objects (with_helper ?m ?cD))"
    using with_helper_linked[OF wfD, of ?m] by simp
  have len: "length (objects ?c) \<le> length (objects (with_helper ?m ?cD))"
    using with_helper_length[of ?cD ?m] by simp
  have sv: "list_all (valid (with_helper ?m ?cD)) (selected_objects ?c)"
    using len by (auto simp add: list_all_iff selected_objects_def valid_def)
  have av: "case active ?c of None \<Rightarrow> True | Some a \<Rightarrow> valid (with_helper ?m ?cD) a"
    using wf len by (auto simp add: wf_host_def list_all_iff valid_def split: option.splits)
  let ?s1 = "self\<lparr>sel := selected_objects ?c, act := active ?c,
               op_use_snap := use_snap ?c,
               op_snap_element := Some (snap_element ?c),
               op_snap_target := Some (snap_target ?c),
               op_pivot_point := Some (pivot_point ?c),
               op_transform_orientation := Some (transform_orientation ?c),
               draw_handler := Some (Suc (fold max (draw_handlers w) 0))\<rparr>"
  let ?w1 = "w\<lparr>ctx := (with_helper ?m ?cD)\<lparr>transform_orientation := st_transform_orientation (store w)\<rparr>,
            store := (store w)\<lparr>st_helper := Some (helper_ref ?c)\<rparr>,
            draw_handlers := draw_handlers w @ [Suc (fold max (draw_handlers w) 0)],
            modal_handlers := modal_handlers w @ [?s1],
            translate_calls := translate_calls w @
              [(st_constraint_axis (store w), st_transform_orientation (store w), True)]\<rparr>"
  from trans[OF assms(4)[symmetric] invoke_closed[OF assms(2,3), of self ev]]
  have "self1 = ?s1 \<and> w1 = ?w1 \<and> status = ''RUNNING_MODAL''"
    by (simp only: sum.inject prod.inject)
  then have s1: "self1 = ?s1" and w1: "w1 = ?w1" by blast+
  from hv hl sv av show ?thesis
    unfolding running_def s1 w1 by (simp add: valid_orientation cong: option.case_cong)
qed

subsection \<open>The displacement\<close>

lemma vsub_self: "vsub v v = (0, 0, 0)"
  by (cases v) simp

lemma modal_returns_exit:
  "modal self ev w = Inr (w', status) \<Longrightarrow> \<exists>w1. exit self w1 = Inr w'"
  by (auto simp add: modal_def bind_r_def Let_def split: sum.splits)

text \<open>
  Claim C7. \<^verbatim>\<open>delta\<close> is a property, not a field: the store has no slot for it, and
  in every world it is \<^verbatim>\<open>placeloc\<close> minus \<^verbatim>\<open>takeloc\<close> as the session reads them at
  that moment (it fails exactly when reading \<^verbatim>\<open>placeloc\<close> fails). The same holds for
  the session a hook is given. After a modal step has returned, the helper reference is
  cleared, so \<^verbatim>\<open>delta\<close> is the stored \<^verbatim>\<open>placeloc\<close> minus the stored \<^verbatim>\<open>takeloc\<close>.
\<close>

theorem delta_is_placeloc_minus_takeloc:
  "delta w = (case placeloc w of Inl e \<Rightarrow> Inl e | Inr p \<Rightarrow> Inr (vsub p (takeloc w)))
   \<and> sp_delta (sp_of w) =
       (case sp_placeloc (sp_of w) of
          Inl e \<Rightarrow> Inl e
        | Inr p \<Rightarrow> Inr (vsub p (sp_takeloc (sp_of w))))
   \<and> (\<forall>w' status. modal self ev w = Inr (w', status) \<longrightarrow>
         delta w' = Inr (vsub (st_placeloc (store w')) (st_takeloc (store w'))))"
proof (intro conjI allI impI)
  show "delta w = (case placeloc w of Inl e \<Rightarrow> Inl e | Inr p \<Rightarrow> Inr (vsub p (takeloc w)))"
    by (simp add: delta_def)
  show "sp_delta (sp_of w) =
       (case sp_placeloc (sp_of w) of
          Inl e \<Rightarrow> Inl e
        | Inr p \<Rightarrow> Inr (vsub p (sp_takeloc (sp_of w))))"
    by (simp add: sp_of_def delta_def cong: sum.case_cong)
next
  fix w' status
  assume "modal self ev w = Inr (w', status)"
  then obtain w1 where "exit self w1 = Inr w'" using modal_returns_exit by blast
  then have "st_helper (store w') = None" by (rule exit_returns_no_helper)
  then show "delta w' = Inr (vsub (st_placeloc (store w')) (st_takeloc (store w')))"
    by (simp add: delta_def placeloc_def takeloc_def)
qed

theorem delta_is_placeloc_minus_takeloc_witness:
  "\<exists>w'. modal session_op leftmouse session_world = Inr (w', ''FINISHED'') \<and>
        st_placeloc (store w') = (5, 2, 0) \<and> st_takeloc (store w') = (1, 2, 0) \<and>
        delta w' = Inr (4, 0, 0)"
proof -
  let ?wp = "session_world\<lparr>redraw_tags := Suc (redraw_tags session_world),
            store := (store session_world)
              \<lparr>st_placeloc := location (objects (ctx session_world) ! 2)\<rparr>\<rparr>"
  have cb: "st_callback (store session_world) = Some dumb_callback"
    and h: "st_helper (store session_world) = Some 2"
    and tk: "st_takeloc (store session_world) = (1, 2, 0)"
    by (simp_all add: session_world_def)
  have st: "''SUCCESS'' =
      (if event_type leftmouse \<in> {''ESC'', ''RIGHTMOUSE''} then ''CANCEL'' else ''SUCCESS'')"
    by (simp add: leftmouse_def)
  have wp: "?wp = (if event_type leftmouse \<in> {''ESC'', ''RIGHTMOUSE''}
                  then session_world\<lparr>redraw_tags := Suc (redraw_tags session_world)\<rparr>
                  else ?wp)"
    by (simp add: leftmouse_def)
  have ret: "dumb_callback leftmouse ''SUCCESS'' (sp_of ?wp) (ctx session_world) =
               Returned (ctx session_world)"
    by (simp add: dumb_callback_def)
  have r2: "running session_op (?wp\<lparr>ctx := ctx session_world\<rparr>)"
    by (simp add: running_def session_op_def session_world_def valid_def)
  have pl: "st_placeloc (store ?wp) = (5, 2, 0)"
    by (simp add: session_world_def location_def Translation_def)
  from modal_returns [OF session_running cb h st wp ret r2]
  obtain w' where w': "modal session_op leftmouse session_world = Inr (w', ''FINISHED'')"
    "st_placeloc (store w') = st_placeloc (store ?wp)"
    "st_takeloc (store w') = st_takeloc (store session_world)"
    by blast
  from delta_is_placeloc_minus_takeloc [of session_world session_op leftmouse] w'(1)
  have "delta w' = Inr (vsub (st_placeloc (store w')) (st_takeloc (store w')))"
    by blast
  moreover from w'(2) pl have p5: "st_placeloc (store w') = (5, 2, 0)" by (simp only:)
  moreover from w'(3) tk have t1: "st_takeloc (store w') = (1, 2, 0)" by (simp only:)
  ultimately have "delta w' = Inr (4, 0, 0)" by simp
  with w'(1) p5 t1 show ?thesis by blast
qed

subsection \<open>The entry function with a location\<close>

lemma snap_point_given:
  assumes "takemat = Some m \<and> t = translation m \<and> orient' = ''LOCAL'' \<or>
           takemat = None \<and> takeloc_arg = Some t \<and> m = Translation t \<and> orient' = orient"
  shows "snap_point takeloc_arg draw callback takemat axis orient mode ev w =
     bind_r (invoke snap_op_new ev
        (w\<lparr>store := (store w)\<lparr>st_draw := Some draw, st_callback := Some callback,
               st_constraint_axis := axis, st_helper_matrix := m, st_takeloc := t,
               st_placeloc := t, st_transform_orientation := orient',
               st_mode := Some mode\<rparr>\<rparr>))
       (\<lambda>(self1, w6, status). Inr w6)"
  using assms by (auto simp add: snap_point_def bind_r_def)

lemma invoke_store:
  assumes "st_draw (store w) = Some d"
  shows "\<exists>self1 w1 status. invoke self ev w = Inr (self1, w1, status) \<and>
          (if area_type (ctx w) = ''VIEW_3D''
           then store w1 = (store w)\<lparr>st_helper := Some (helper_ref (ctx w))\<rparr> \<and>
                objects (ctx w1) =
                  objects (with_helper (st_helper_matrix (store w)) (select_all_DESELECT (ctx w)))
           else store w1 = store w \<and> ctx w1 = ctx w)"
proof (cases "area_type (ctx w) = ''VIEW_3D''")
  case True
  from invoke_closed[OF True assms, of self ev] True show ?thesis by simp
next
  case False
  then show ?thesis by (simp add: invoke_def)
qed

text \<open>
  Claim C4. A call of \<^verbatim>\<open>snap_point\<close> with a \<^verbatim>\<open>takemat\<close> returns, and the store then
  holds the translation of the matrix as \<^verbatim>\<open>takeloc\<close>, \<^verbatim>\<open>LOCAL\<close> as orientation
  whatever orientation was passed (and whatever \<^verbatim>\<open>takeloc\<close> was passed), and the matrix
  itself as helper matrix.
\<close>

theorem snap_point_takemat:
  "\<exists>w'. snap_point takeloc_arg draw callback (Some m) axis orient mode ev w = Inr w'
       \<and> st_takeloc (store w') = translation m
       \<and> st_transform_orientation (store w') = ''LOCAL''
       \<and> st_helper_matrix (store w') = m"
proof -
  let ?w5 = "w\<lparr>store := (store w)\<lparr>st_draw := Some draw, st_callback := Some callback,
               st_constraint_axis := axis, st_helper_matrix := m, st_takeloc := translation m,
               st_placeloc := translation m, st_transform_orientation := ''LOCAL'',
               st_mode := Some mode\<rparr>\<rparr>"
  have sd: "st_draw (store ?w5) = Some draw" by simp
  from invoke_store[OF sd, of snap_op_new ev] obtain self1 w1 status where
    inv: "invoke snap_op_new ev ?w5 = Inr (self1, w1, status)"
    and st: "store w1 = (store ?w5)\<lparr>st_helper := Some (helper_ref (ctx ?w5))\<rparr> \<or> store w1 = store ?w5"
    by (auto split: if_splits)
  have "snap_point takeloc_arg draw callback (Some m) axis orient mode ev w = Inr w1"
    using inv by (simp add: snap_point_given[where m=m and t="translation m" and orient'="''LOCAL''"] bind_r_def)
  with st show ?thesis by auto
qed

subsection \<open>The helper at the start of a session\<close>

lemma with_helper_location:
  "location (objects (with_helper m c) ! helper_ref c) = translation m"
  by (simp add: location_def with_helper_at)

text \<open>
  Claim C9. A call of \<^verbatim>\<open>snap_point\<close> with a location or a matrix returns, and the
  stored \<^verbatim>\<open>placeloc\<close> equals the stored \<^verbatim>\<open>takeloc\<close>. When the call started a session
  (the area is a 3D view), or no helper of an earlier session is referenced, the
  session's \<^verbatim>\<open>delta\<close> is the zero vector: the helper sits at \<^verbatim>\<open>takeloc\<close>.
\<close>

theorem snap_point_starts_at_zero:
  assumes "takeloc_arg \<noteq> None \<or> takemat \<noteq> None"
  shows "\<exists>w'. snap_point takeloc_arg draw callback takemat axis orient mode ev w = Inr w'
          \<and> st_placeloc (store w') = st_takeloc (store w')
          \<and> (area_type (ctx w) = ''VIEW_3D'' \<or> st_helper (store w) = None \<longrightarrow>
               delta w' = Inr (0, 0, 0))"
proof -
  from assms obtain m t orient' where
    given: "takemat = Some m \<and> t = translation m \<and> orient' = ''LOCAL'' \<or>
           takemat = None \<and> takeloc_arg = Some t \<and> m = Translation t \<and> orient' = orient"
    by (cases takemat; cases takeloc_arg) auto
  then have tm: "translation m = t" by (auto simp add: Translation_def)
  let ?w5 = "w\<lparr>store := (store w)\<lparr>st_draw := Some draw, st_callback := Some callback,
               st_constraint_axis := axis, st_helper_matrix := m, st_takeloc := t,
               st_placeloc := t, st_transform_orientation := orient',
               st_mode := Some mode\<rparr>\<rparr>"
  have sd: "st_draw (store ?w5) = Some draw" by simp
  from invoke_store[OF sd, of snap_op_new ev] obtain self1 w1 status where
    inv: "invoke snap_op_new ev ?w5 = Inr (self1, w1, status)"
    and st: "if area_type (ctx w) = ''VIEW_3D''
           then store w1 = (store ?w5)\<lparr>st_helper := Some (helper_ref (ctx w))\<rparr> \<and>
                objects (ctx w1) = objects (with_helper m (select_all_DESELECT (ctx w)))
           else store w1 = store ?w5 \<and> ctx w1 = ctx w"
    by auto
  have sp: "snap_point takeloc_arg draw callback takemat axis orient mode ev w = Inr w1"
    using inv by (simp add: snap_point_given[OF given] bind_r_def)
  have eq: "st_placeloc (store w1) = st_takeloc (store w1)"
    using st by (auto split: if_splits)
  have d: "delta w1 = Inr (0, 0, 0)"
    if "area_type (ctx w) = ''VIEW_3D'' \<or> st_helper (store w) = None"
  proof (cases "area_type (ctx w) = ''VIEW_3D''")
    case True
    with st have s1: "store w1 = (store ?w5)\<lparr>st_helper := Some (helper_ref (ctx w))\<rparr>"
      and o1: "objects (ctx w1) = objects (with_helper m (select_all_DESELECT (ctx w)))"
      by simp_all
    have v: "valid (ctx w1) (helper_ref (ctx w))"
      using with_helper_valid[of m "select_all_DESELECT (ctx w)"] o1 by (simp add: valid_def)
    have l: "location (objects (ctx w1) ! helper_ref (ctx w)) = t"
      using with_helper_location[of m "select_all_DESELECT (ctx w)"] o1 tm by simp
    show ?thesis
      using v l by (simp add: delta_def placeloc_def takeloc_def s1 vsub_self)
  next
    case False
    with that st have "st_helper (store w1) = None" "st_placeloc (store w1) = t"
        "st_takeloc (store w1) = t"
      by simp_all
    then show ?thesis
      by (simp add: delta_def placeloc_def takeloc_def vsub_self)
  qed
  from sp eq d show ?thesis by - (rule exI[of _ w1], simp)
qed

theorem snap_point_starts_at_zero_witness:
  "area_type (ctx (world_of view3d_host)) = ''VIEW_3D'' \<and>
   (\<exists>w'. snap_point (Some (1, 2, 0)) dumb_draw dumb_callback None (True, True, False)
            ''GLOBAL'' ''OBJECT'' leftmouse (world_of view3d_host) = Inr w'
        \<and> st_placeloc (store w') = st_takeloc (store w')
        \<and> delta w' = Inr (0, 0, 0))"
proof -
  have a: "Some (1, 2, 0) \<noteq> (None :: vec3 option) \<or> (None :: matrix option) \<noteq> None"
    by simp
  have v: "area_type (ctx (world_of view3d_host)) = ''VIEW_3D''"
    by (simp add: world_of_def view3d_host_def)
  from snap_point_starts_at_zero [OF a, of dumb_draw dumb_callback "(True, True, False)"
      "''GLOBAL''" "''OBJECT''" leftmouse "world_of view3d_host"] v
  have "\<exists>w'. snap_point (Some (1, 2, 0)) dumb_draw dumb_callback None (True, True, False)
            ''GLOBAL'' ''OBJECT'' leftmouse (world_of view3d_host) = Inr w'
        \<and> st_placeloc (store w') = st_takeloc (store w')
        \<and> delta w' = Inr (0, 0, 0)"
    by blast
  with v show ?thesis by blast
qed

text \<open>
  Claim C8. \<^verbatim>\<open>create_helper\<close> on a well-formed host. It returns, and references the
  helper in the store. When the registry has an object of the reserved name, that
  object is the helper: the registry keeps its length, and the scene is unchanged when
  the object is linked already and gets it appended otherwise. When there is none, the
  helper is a new object at the end of the registry, with both fake-user flags set,
  linked to the scene. In either case the helper carries the reserved name, its world
  matrix is the stored helper matrix, it is selected, it is linked and it is the active
  object; every other object of the registry is as before.
\<close>

theorem create_helper_reuses_or_creates:
  assumes "wf_host (ctx w)"
  shows "\<exists>h c'. create_helper w = Inr (w\<lparr>ctx := c', store := (store w)\<lparr>st_helper := Some h\<rparr>\<rparr>)
     \<and> (case find_first helper_name (objects (ctx w)) of
          Some i \<Rightarrow>
            h = i \<and> length (objects c') = length (objects (ctx w)) \<and>
            scene_objects c' =
              (if i \<in> set (scene_objects (ctx w)) then scene_objects (ctx w)
               else scene_objects (ctx w) @ [i])
        | None \<Rightarrow>
            h = length (objects (ctx w)) \<and>
            length (objects c') = Suc (length (objects (ctx w))) \<and>
            use_fake_user (objects c' ! h) \<and> data_use_fake_user (objects c' ! h) \<and>
            scene_objects c' = scene_objects (ctx w) @ [h])
     \<and> name (objects c' ! h) = helper_name
     \<and> matrix_world (objects c' ! h) = st_helper_matrix (store w)
     \<and> select (objects c' ! h)
     \<and> h \<in> set (scene_objects c')
     \<and> active c' = Some h
     \<and> (\<forall>r < length (objects (ctx w)). r \<noteq> h \<longrightarrow> objects c' ! r = objects (ctx w) ! r)"
proof -
  let ?c = "ctx w"
  let ?m = "st_helper_matrix (store w)"
  let ?c' = "with_helper ?m ?c"
  let ?h = "helper_ref ?c"
  have branch: "case find_first helper_name (objects ?c) of
          Some i \<Rightarrow>
            ?h = i \<and> length (objects ?c') = length (objects ?c) \<and>
            scene_objects ?c' =
              (if i \<in> set (scene_objects ?c) then scene_objects ?c
               else scene_objects ?c @ [i])
        | None \<Rightarrow>
            ?h = length (objects ?c) \<and>
            length (objects ?c') = Suc (length (objects ?c)) \<and>
            use_fake_user (objects ?c' ! ?h) \<and> data_use_fake_user (objects ?c' ! ?h) \<and>
            scene_objects ?c' = scene_objects ?c @ [?h]"
  proof (cases "find_first helper_name (objects ?c)")
    case None
    then show ?thesis by (simp add: with_helper_def helper_ref_def)
  next
    case (Some i)
    with with_helper_scene(1)[OF assms, of ?m] show ?thesis
      by (simp add: helper_ref_def) (simp add: with_helper_def)
  qed
  have other: "\<forall>r < length (objects ?c). r \<noteq> ?h \<longrightarrow> objects ?c' ! r = objects ?c ! r"
    using with_helper_other by blast
  from create_helper_closed[of w] branch other with_helper_at[of ?m ?c]
    with_helper_linked[OF assms, of ?m] with_helper_scene(2)[OF assms, of ?m]
  show ?thesis by blast
qed

theorem create_helper_reuses_or_creates_witness:
  "wf_host (ctx (world_of (view3d_host\<lparr>objects := [cube, lamp, old_helper]\<rparr>))) \<and>
   (\<exists>h c'. create_helper (world_of (view3d_host\<lparr>objects := [cube, lamp, old_helper]\<rparr>)) =
              Inr ((world_of (view3d_host\<lparr>objects := [cube, lamp, old_helper]\<rparr>))
                     \<lparr>ctx := c', store := SnapStore_initial\<lparr>st_helper := Some h\<rparr>\<rparr>)
          \<and> h = 2 \<and> length (objects c') = 3 \<and> scene_objects c' = [0, 1, 2]
          \<and> matrix_world (objects c' ! h) = Matrix \<and> select (objects c' ! h)
          \<and> active c' = Some h \<and> objects c' ! 0 = cube \<and> objects c' ! 1 = lamp)"
proof -
  let ?w = "world_of (view3d_host\<lparr>objects := [cube, lamp, old_helper]\<rparr>)"
  have wf: "wf_host (ctx ?w)"
    by (simp add: wf_host_def world_of_def view3d_host_def cube_def lamp_def old_helper_def
          valid_def)
  have ob: "objects (ctx ?w) = [cube, lamp, old_helper]"
    and sc: "scene_objects (ctx ?w) = [0, 1]"
    and st: "store ?w = SnapStore_initial"
    by (simp_all add: world_of_def view3d_host_def)
  have hm: "st_helper_matrix SnapStore_initial = Matrix"
    by (simp add: SnapStore_initial_def)
  have ff: "find_first helper_name [cube, lamp, old_helper] = Some 2"
    by (simp add: helper_name_def cube_def lamp_def old_helper_def)
  from create_helper_reuses_or_creates [OF wf]
  obtain h c' where hc:
    "create_helper ?w = Inr (?w\<lparr>ctx := c', store := (store ?w)\<lparr>st_helper := Some h\<rparr>\<rparr>)"
    "case find_first helper_name (objects (ctx ?w)) of
          Some i \<Rightarrow>
            h = i \<and> length (objects c') = length (objects (ctx ?w)) \<and>
            scene_objects c' =
              (if i \<in> set (scene_objects (ctx ?w)) then scene_objects (ctx ?w)
               else scene_objects (ctx ?w) @ [i])
        | None \<Rightarrow>
            h = length (objects (ctx ?w)) \<and>
            length (objects c') = Suc (length (objects (ctx ?w))) \<and>
            use_fake_user (objects c' ! h) \<and> data_use_fake_user (objects c' ! h) \<and>
            scene_objects c' = scene_objects (ctx ?w) @ [h]"
    "matrix_world (objects c' ! h) = st_helper_matrix (store ?w)"
    "select (objects c' ! h)"
    "active c' = Some h"
    "\<forall>r < length (objects (ctx ?w)). r \<noteq> h \<longrightarrow> objects c' ! r = objects (ctx ?w) ! r"
    by blast
  from hc(2) [unfolded ob sc ff]
  have h2: "h = 2" and len: "length (objects c') = 3"
    and sc': "scene_objects c' = [0, 1, 2]"
    by simp_all
  from hc(6) h2 have o0: "objects c' ! 0 = cube" and o1: "objects c' ! 1 = lamp"
    by (simp_all add: ob)
  from hc(1,3,4,5) h2 len sc' o0 o1 wf show ?thesis
    by (simp only: st hm) blast
qed

subsection \<open>A whole session\<close>

lemma session_closed:
  assumes wf: "wf_host (ctx w)" and view: "area_type (ctx w) = ''VIEW_3D''"
    and dr: "st_draw (store w) = Some d" and cb: "st_callback (store w) = Some cb"
    and hs: "helper_ref (ctx w) \<notin> set (selected_objects (ctx w))"
    and ha: "active (ctx w) \<noteq> Some (helper_ref (ctx w))"
    and kd: "\<And>c. keeps_selection c (drag c)"
    and kc: "\<And>ev' state s c. \<exists>c'. cb ev' state s c = Returned c' \<and> keeps_selection c c'"
  shows "\<exists>w'. run_session self ev0 drag ev w = Inr (w', ''FINISHED'')
            \<and> restored_state (ctx w') = restored_state (ctx w)"
proof -
  let ?c = "ctx w"
  let ?h = "helper_ref ?c"
  let ?m = "st_helper_matrix (store w)"
  let ?cD = "select_all_DESELECT ?c"
  let ?c5 = "(with_helper ?m ?cD)\<lparr>transform_orientation := st_transform_orientation (store w)\<rparr>"
  obtain self1 w1 where inv: "invoke self ev0 w = Inr (self1, w1, ''RUNNING_MODAL'')"
    using invoke_closed[OF view dr, of self ev0] by blast
  from trans[OF inv[symmetric] invoke_closed[OF view dr, of self ev0]]
  have "self1 = self\<lparr>sel := selected_objects ?c, act := active ?c,
               op_use_snap := use_snap ?c,
               op_snap_element := Some (snap_element ?c),
               op_snap_target := Some (snap_target ?c),
               op_pivot_point := Some (pivot_point ?c),
               op_transform_orientation := Some (transform_orientation ?c),
               draw_handler := Some (Suc (fold max (draw_handlers w) 0))\<rparr>"
    and w1full: "w1 = w\<lparr>ctx := ?c5,
            store := (store w)\<lparr>st_helper := Some ?h\<rparr>,
            draw_handlers := draw_handlers w @ [Suc (fold max (draw_handlers w) 0)],
            modal_handlers := modal_handlers w @
              [self\<lparr>sel := selected_objects ?c, act := active ?c,
                    op_use_snap := use_snap ?c,
                    op_snap_element := Some (snap_element ?c),
                    op_snap_target := Some (snap_target ?c),
                    op_pivot_point := Some (pivot_point ?c),
                    op_transform_orientation := Some (transform_orientation ?c),
                    draw_handler := Some (Suc (fold max (draw_handlers w) 0))\<rparr>],
            translate_calls := translate_calls w @
              [(st_constraint_axis (store w), st_transform_orientation (store w), True)]\<rparr>"
    by (simp_all only: sum.inject prod.inject)
  then have s1: "sel self1 = selected_objects ?c" "act self1 = active ?c"
      "op_use_snap self1 = use_snap ?c"
      "op_snap_element self1 = Some (snap_element ?c)"
      "op_snap_target self1 = Some (snap_target ?c)"
      "op_pivot_point self1 = Some (pivot_point ?c)"
      "op_transform_orientation self1 = Some (transform_orientation ?c)"
      "draw_handler self1 = Some (Suc (fold max (draw_handlers w) 0))"
    and w1: "ctx w1 = ?c5" "st_helper (store w1) = Some ?h"
      "st_callback (store w1) = Some cb"
      "draw_handlers w1 = draw_handlers w @ [Suc (fold max (draw_handlers w) 0)]"
    using cb by simp_all
  have run1: "running self1 w1" by (rule invoke_running[OF wf view dr inv])
  \<comment> \<open>the host's transform\<close>
  let ?c6 = "drag (ctx w1)"
  let ?w2 = "w1\<lparr>ctx := ?c6\<rparr>"
  have k56: "keeps_selection (ctx w1) ?c6" by (rule kd)
  have run2: "running self1 ?w2" by (rule running_keeps[OF run1 k56])
  have h2: "st_helper (store ?w2) = Some ?h" and cb2: "st_callback (store ?w2) = Some cb"
    using w1 by simp_all
  \<comment> \<open>the modal step\<close>
  define state where
    "state = (if event_type ev \<in> {''ESC'', ''RIGHTMOUSE''} then ''CANCEL'' else ''SUCCESS'')"
  define w_pre where
    "w_pre = (if event_type ev \<in> {''ESC'', ''RIGHTMOUSE''}
              then ?w2\<lparr>redraw_tags := Suc (redraw_tags ?w2)\<rparr>
              else ?w2\<lparr>redraw_tags := Suc (redraw_tags ?w2),
                       store := (store ?w2)\<lparr>st_placeloc := location (objects (ctx ?w2) ! ?h)\<rparr>\<rparr>)"
  have cpre: "ctx w_pre = ?c6" by (simp add: w_pre_def)
  have rpre: "running self1 w_pre"
    using run2 by (simp add: w_pre_def running_def cong: option.case_cong)
  have hpre: "st_helper (store w_pre) = Some ?h" using h2 by (simp add: w_pre_def)
  have dpre: "draw_handlers w_pre = draw_handlers w1" by (simp add: w_pre_def)
  from kc[of ev state "sp_of w_pre" "ctx ?w2"] obtain c7 where
    ret: "cb ev state (sp_of w_pre) (ctx ?w2) = Returned c7"
    and k67: "keeps_selection (ctx ?w2) c7" by blast
  have k67': "keeps_selection (ctx w_pre) c7" using k67 cpre by simp
  have run3: "running self1 (w_pre\<lparr>ctx := c7\<rparr>)" by (rule running_keeps[OF rpre k67'])
  let ?w3 = "w_pre\<lparr>calls := calls ?w2 @ [(event_type ev, state, sp_of w_pre)], ctx := c7\<rparr>"
  from modal_returns[OF run2 cb2 h2 state_def w_pre_def ret run3]
  obtain w' where m: "modal self1 ev ?w2 = Inr (w', ''FINISHED'')"
    and ex: "exit self1 ?w3 = Inr w'"
    by blast
  have rs: "run_session self ev0 drag ev w = Inr (w', ''FINISHED'')"
    using inv m by (simp add: run_session_def bind_r_def)
  \<comment> \<open>what exit leaves\<close>
  have "?w3 = (w_pre\<lparr>ctx := c7\<rparr>)\<lparr>calls := calls ?w2 @ [(event_type ev, state, sp_of w_pre)]\<rparr>"
    by simp
  then have run3': "running self1 ?w3"
    using run3 by (simp only: running_redraw_calls)
  have e3: "st_helper (store ?w3) = Some ?h" using hpre by simp
  have hl: "?h \<in> set (scene_objects (ctx ?w3))"
    using run3' e3 by (simp add: running_def cong: option.case_cong)
  have dh: "Suc (fold max (draw_handlers w) 0) \<in> set (draw_handlers ?w3)"
    using dpre w1(4) by simp
  have sv: "list_all (valid (ctx ?w3)) (sel self1)"
    and av: "case act self1 of None \<Rightarrow> True | Some a \<Rightarrow> valid (ctx ?w3) a"
    using run3' by (simp_all add: running_def cong: option.case_cong)
  from exit_closed[OF e3 hl s1(8) dh s1(4) s1(5) s1(6) s1(7) sv av, unfolded ex sum.inject]
  have cw': "ctx w' = c7\<lparr>
              scene_objects := removeAll ?h (scene_objects c7),
              objects := mark (selected_objects ?c) (objects c7),
              use_snap := use_snap ?c, snap_element := snap_element ?c,
              snap_target := snap_target ?c,
              pivot_point := pivot_point ?c,
              transform_orientation := transform_orientation ?c,
              active :=
                (case active ?c of
                   None \<Rightarrow> (if active c7 = Some ?h then None else active c7)
                 | Some a \<Rightarrow> (if a \<in> set (removeAll ?h (scene_objects c7))
                              then Some a else None))\<rparr>"
    by (simp add: s1 cong: option.case_cong)
  \<comment> \<open>the selection and the active object between begin and end\<close>
  have wfD: "wf_host ?cD" by (rule deselect_wf[OF wf])
  have sc5: "scene_objects ?c5 =
      (if ?h \<in> set (scene_objects ?c) then scene_objects ?c else scene_objects ?c @ [?h])"
    and ac5: "active ?c5 = Some ?h"
    using with_helper_scene[OF wfD, of ?m] by simp_all
  have sc7: "scene_objects c7 = scene_objects ?c5" and ac7: "active c7 = active ?c5"
    using k56 k67 w1(1) by (simp_all add: keeps_selection_def)
  have rm: "removeAll ?h (scene_objects c7) = removeAll ?h (scene_objects ?c)"
    by (simp add: sc7 sc5)
  have len5: "length (objects ?c) \<le> length (objects ?c5)"
    using with_helper_length[of ?cD ?m] by simp
  have len7: "length (objects c7) = length (objects ?c5)"
    using keeps_selection_length[OF k56] keeps_selection_length[OF k67] w1(1) by simp
  have off: "\<forall>r \<in> set (scene_objects ?c). r \<noteq> ?h \<longrightarrow> \<not> select (objects c7 ! r)"
  proof (intro ballI impI)
    fix r assume r: "r \<in> set (scene_objects ?c)" and n: "r \<noteq> ?h"
    from wf r have rv: "r < length (objects ?c)"
      by (simp add: wf_host_def list_all_iff valid_def)
    with len5 have r5: "r < length (objects (ctx w1))" by (simp add: w1(1))
    then have r6: "r < length (objects (ctx ?w2))"
      using keeps_selection_length[OF k56] by simp
    have "select (objects c7 ! r) = select (objects (ctx ?w2) ! r)"
      by (rule keeps_selection_select[OF k67 r6])
    also have "\<dots> = select (objects (ctx w1) ! r)"
      using keeps_selection_select[OF k56 r5] by simp
    also have "\<dots> = select (objects (with_helper ?m ?cD) ! r)" by (simp add: w1(1))
    finally show "\<not> select (objects c7 ! r)"
      using begun_unselected[OF r rv n, of ?m] by simp
  qed
  have len: "length (objects ?c) \<le> length (objects c7)" using len5 len7 by simp
  have selo: "selected_objects (ctx w') = selected_objects ?c"
    using restore_selection[OF wf hs len off, of c7]
    by (simp add: cw' rm selected_objects_def valid_def)
  have acto: "active (ctx w') = active ?c"
  proof (cases "active ?c")
    case None
    then show ?thesis by (simp add: cw' ac7 ac5)
  next
    case (Some a)
    with wf have "a \<in> set (scene_objects ?c)" by (simp add: wf_host_def)
    moreover from Some ha have "a \<noteq> ?h" by simp
    ultimately show ?thesis using Some by (simp add: cw' rm)
  qed
  have "restored_state (ctx w') = restored_state ?c"
    using selo acto by (simp add: restored_state_def) (simp add: cw')
  with rs show ?thesis by blast
qed

lemma drag_helper_keeps: "keeps_selection c (drag_helper c)"
proof -
  have "map select ((objects c)[2 := (objects c ! 2)\<lparr>matrix_world := Translation (5, 2, 0)\<rparr>]) =
        map select (objects c)"
  proof (cases "2 < length (objects c)")
    case True
    then have "(map select (objects c))[2 := map select (objects c) ! 2] = map select (objects c)"
      by (simp only: list_update_id)
    with True show ?thesis by (simp add: map_update)
  next
    case False
    then have "length (objects c) \<le> 2" by simp
    then show ?thesis by (simp only: list_update_beyond)
  qed
  then show ?thesis by (simp add: keeps_selection_def drag_helper_def update_object_def)
qed

lemma dumb_callback_keeps:
  "\<exists>c'. dumb_callback ev' state s c = Returned c' \<and> keeps_selection c c'"
  by (simp add: dumb_callback_def keeps_selection_def)

text \<open>
  Claim C1, as amended. A session begun in a 3D view on a well-formed host, with both
  hooks installed, in which the helper object (if it exists already) was neither selected
  nor active before \<^verbatim>\<open>init\<close>, and in which the host's transform and the callback leave
  the selection, the scene links and the active object as they found them (the callback
  returns). Whatever the terminal event is, the session finishes, and after \<^verbatim>\<open>exit\<close>
  the selected objects, the active object, \<^verbatim>\<open>use_snap\<close>, \<^verbatim>\<open>snap_element\<close>,
  \<^verbatim>\<open>snap_target\<close>, the pivot point and the transform orientation are what they were
  before \<^verbatim>\<open>init\<close>, although the transform may have changed the settings meanwhile.
\<close>

theorem session_restores_context:
  assumes "wf_host (ctx w)" and "area_type (ctx w) = ''VIEW_3D''"
    and "st_draw (store w) = Some d" and "st_callback (store w) = Some cb"
    and "\<And>i. find_first helper_name (objects (ctx w)) = Some i \<Longrightarrow>
           i \<notin> set (selected_objects (ctx w)) \<and> active (ctx w) \<noteq> Some i"
    and "\<And>c. keeps_selection c (drag c)"
    and "\<And>ev' state s c. \<exists>c'. cb ev' state s c = Returned c' \<and> keeps_selection c c'"
  shows "\<exists>w'. run_session self ev0 drag ev w = Inr (w', ''FINISHED'')
            \<and> restored_state (ctx w') = restored_state (ctx w)"
proof -
  have hs: "helper_ref (ctx w) \<notin> set (selected_objects (ctx w))"
    and ha: "active (ctx w) \<noteq> Some (helper_ref (ctx w))"
  proof -
    show "helper_ref (ctx w) \<notin> set (selected_objects (ctx w))"
    proof (cases "find_first helper_name (objects (ctx w))")
      case None
      then show ?thesis by (simp add: helper_ref_def selected_objects_def valid_def)
    next
      case (Some i)
      with assms(5)[OF Some] show ?thesis by (simp add: helper_ref_def)
    qed
    show "active (ctx w) \<noteq> Some (helper_ref (ctx w))"
    proof (cases "find_first helper_name (objects (ctx w))")
      case None
      with assms(1) show ?thesis
        by (auto simp add: helper_ref_def wf_host_def list_all_iff valid_def)
    next
      case (Some i)
      with assms(5)[OF Some] show ?thesis by (simp add: helper_ref_def)
    qed
  qed
  from session_closed[OF assms(1-4) hs ha assms(6,7)] show ?thesis .
qed

theorem session_restores_context_witness:
  "wf_host (ctx (armed view3d_host)) \<and>
   area_type (ctx (armed view3d_host)) = ''VIEW_3D'' \<and>
   find_first helper_name (objects (ctx (armed view3d_host))) = None \<and>
   (\<exists>w'. run_session snap_op_new leftmouse drag_helper leftmouse (armed view3d_host) =
            Inr (w', ''FINISHED'')
        \<and> restored_state (ctx w') =
            ([0], Some 0, False, ''INCREMENT'', ''CLOSEST'', ''MEDIAN_POINT'', ''GLOBAL''))"
proof -
  have wf: "wf_host (ctx (armed view3d_host))"
    by (simp add: wf_host_def armed_def view3d_host_def cube_def lamp_def valid_def)
  have v: "area_type (ctx (armed view3d_host)) = ''VIEW_3D''"
    and d: "st_draw (store (armed view3d_host)) = Some dumb_draw"
    and cb: "st_callback (store (armed view3d_host)) = Some dumb_callback"
    by (simp_all add: armed_def view3d_host_def)
  have nf: "find_first helper_name (objects (ctx (armed view3d_host))) = None"
    by (simp add: armed_def view3d_host_def cube_def lamp_def helper_name_def)
  have rs: "restored_state (ctx (armed view3d_host)) =
      ([0], Some 0, False, ''INCREMENT'', ''CLOSEST'', ''MEDIAN_POINT'', ''GLOBAL'')"
    by (simp add: restored_state_def selected_objects_def armed_def view3d_host_def
          cube_def lamp_def valid_def)
  from session_restores_context
         [OF wf v d cb _ drag_helper_keeps dumb_callback_keeps,
          of snap_op_new leftmouse leftmouse] nf
  have "\<exists>w'. run_session snap_op_new leftmouse drag_helper leftmouse (armed view3d_host) =
            Inr (w', ''FINISHED'')
        \<and> restored_state (ctx w') = restored_state (ctx (armed view3d_host))"
    by simp
  with wf v nf rs show ?thesis by simp
qed

text \<open>
  Claim C1, as stated, fails when the helper of an earlier session is still linked,
  selected and active when the session begins (the state an aborted session leaves
  behind, which \<^verbatim>\<open>create_helper\<close> provides for by relinking only when needed).
  \<^verbatim>\<open>init\<close> saves the helper among the selected objects and as the active object;
  \<^verbatim>\<open>exit\<close> unlinks it before it restores them, so the helper is no longer among the
  selected objects of the scene and the scene has no active object. The session below
  is cancelled with the default hooks and an idle transform.
\<close>

theorem session_restore_counterexample:
  "run_session snap_op_new leftmouse id esc (armed stale_host) =
     Inr (final_world (run_session snap_op_new leftmouse id esc (armed stale_host)),
          ''FINISHED'') \<and>
   selected_objects (ctx (armed stale_host)) = [0, 1] \<and>
   selected_objects
     (ctx (final_world (run_session snap_op_new leftmouse id esc (armed stale_host)))) = [0] \<and>
   active (ctx (armed stale_host)) = Some 1 \<and>
   active (ctx (final_world (run_session snap_op_new leftmouse id esc (armed stale_host)))) =
     None"
  by (simp add: run_session_def invoke_def init_def create_helper_def bind_r_def
     armed_def stale_host_def cube_def old_helper_def snap_op_new_def leftmouse_def esc_def
     selected_objects_def select_all_DESELECT_def valid_def collection_find_def helper_name_def
     scene_find_def link_def update_object_def set_active_def set_transform_orientation_def
     draw_handler_add_def modal_def call_callback_def dumb_callback_def exit_def
     draw_handler_remove_def destroy_helper_def unlink_def restore_enum_def final_world_def
     sp_of_def Let_def)

end
